theory Spec2Isabelle
  imports Main "HOL-Library.Multiset" "HOL-Library.Sublist"
begin

section \<open>Python strings\<close>

text \<open>
  \<^verbatim>\<open>str.split(sep)\<close> with a one-character separator: every occurrence of the separator
  ends a field, so the result has one field more than the string has separators and is
  never empty.
\<close>

fun split_str :: "char \<Rightarrow> string \<Rightarrow> string list" where
  "split_str sep [] = [[]]"
| "split_str sep (c # cs) =
     (if c = sep then [] # split_str sep cs
      else (case split_str sep cs of
              [] \<Rightarrow> [[c]]
            | w # ws \<Rightarrow> (c # w) # ws))"

text \<open>\<^verbatim>\<open>str.lower()\<close> and \<^verbatim>\<open>str.upper()\<close> on the ASCII letters.\<close>

definition lower_char :: "char \<Rightarrow> char" where
  "lower_char c =
     (case map_of (zip ''ABCDEFGHIJKLMNOPQRSTUVWXYZ'' ''abcdefghijklmnopqrstuvwxyz'') c of
        None \<Rightarrow> c
      | Some d \<Rightarrow> d)"

definition upper_char :: "char \<Rightarrow> char" where
  "upper_char c =
     (case map_of (zip ''abcdefghijklmnopqrstuvwxyz'' ''ABCDEFGHIJKLMNOPQRSTUVWXYZ'') c of
        None \<Rightarrow> c
      | Some d \<Rightarrow> d)"

definition lower :: "string \<Rightarrow> string" where
  "lower s = map lower_char s"

definition upper :: "string \<Rightarrow> string" where
  "upper s = map upper_char s"

section \<open>Errors\<close>

text \<open>
  The exceptions the modelled code raises itself (\<^verbatim>\<open>KeyError\<close> from a missing dict key,
  \<^verbatim>\<open>ValueError\<close> from unpacking a tuple of the wrong length, \<^verbatim>\<open>TypeError\<close> from
  subscripting \<^verbatim>\<open>None\<close>, \<^verbatim>\<open>RuntimeError\<close> from \<^verbatim>\<open>_lib_to_instance\<close>,
  \<^verbatim>\<open>NotImplementedError\<close> from the base class), the one sqlite3 raises for a missing table,
  and the errors of the external parsers, which are propagated as they are.
\<close>

datatype error =
    KeyError string
  | ValueError
  | TypeError
  | RuntimeError string
  | NotImplementedError
  | OperationalError string
  | ParserError string

section \<open>The structured views of the external parsers\<close>

text \<open>
  \<^verbatim>\<open>InfParser\<close> after \<^verbatim>\<open>ParseFile\<close>: the key/value dictionary of the module description, the
  library classes it needs for a list of architectures, its sources and its PCDs.
\<close>

record infp =
  Dict :: "string \<rightharpoonup> string"
  get_libraries :: "string list \<Rightarrow> string list"
  Sources :: "string list"
  PcdsUsed :: "string list"

text \<open>
  The override block of a component: the parser's dictionary holds the list of NULL library
  instances under the key \<^verbatim>\<open>NULL\<close> and one instance path under every other key (a library
  class name). The two kinds of entry are kept in two fields. \<^verbatim>\<open>_lib_to_instance\<close> is
  called with lower-cased class names only (line 160 of the source), which never equal
  the key \<^verbatim>\<open>NULL\<close>; its membership test is therefore the lookup among the class keys.
\<close>

record override_dict =
  classes :: "(string \<times> string) list"
  NULL :: "string list"

text \<open>
  \<^verbatim>\<open>DscParser\<close> after \<^verbatim>\<open>ParseFile\<close>: the components, each with its scope and its override
  block, and the scoped library dictionary (a finite dictionary, kept as the list of its
  items and read with \<^const>\<open>map_of\<close>).
\<close>

record dscp =
  Components :: "(string \<times> string \<times> override_dict) list"
  ScopedLibraryDict :: "(string \<times> string) list"

text \<open>
  What the code calls outside this repository's database package: \<^verbatim>\<open>pathlib.Path\<close>
  (\<^verbatim>\<open>as_posix\<close>, \<^verbatim>\<open>name\<close>, \<^verbatim>\<open>is_absolute\<close>), \<^verbatim>\<open>Edk2Path\<close> and the two parsers. They are
  parameters of the model.
\<close>

record collaborators =
  as_posix :: "string \<Rightarrow> string"
  path_name :: "string \<Rightarrow> string"
  is_absolute :: "string \<Rightarrow> bool"
  GetEdk2RelativePathFromAbsolutePath :: "string \<Rightarrow> string"
  InfP_ParseFile :: "string \<Rightarrow> error + infp"
  DscP_ParseFile :: "(string \<rightharpoonup> string) \<Rightarrow> string \<Rightarrow> error + dscp"

section \<open>InstancedInfTable\<close>

record InstancedInfTable =
  t_env :: "string \<rightharpoonup> string"
  t_dsc :: string
  t_fdf :: string
  t_arch :: "string list"
  t_target :: string

text \<open>
  \<^verbatim>\<open>__init__\<close>: three subscripts of the environment mapping, each raising \<^verbatim>\<open>KeyError\<close> on a
  missing key, in the order of the source, and one \<^verbatim>\<open>get\<close> with a default.
\<close>

definition init :: "(string \<rightharpoonup> string) \<Rightarrow> error + InstancedInfTable" where
  "init env =
     (case env ''ACTIVE_PLATFORM'' of
        None \<Rightarrow> Inl (KeyError ''ACTIVE_PLATFORM'')
      | Some dsc \<Rightarrow>
          let fdf = (case env ''FLASH_DEFINITION'' of None \<Rightarrow> '''' | Some f \<Rightarrow> f) in
          (case env ''TARGET_ARCH'' of
             None \<Rightarrow> Inl (KeyError ''TARGET_ARCH'')
           | Some a \<Rightarrow>
               (case env ''TARGET'' of
                  None \<Rightarrow> Inl (KeyError ''TARGET'')
                | Some t \<Rightarrow>
                    Inr \<lparr>t_env = env, t_dsc = dsc, t_fdf = fdf,
                         t_arch = split_str CHR '' '' a, t_target = t\<rparr>)))"

subsection \<open>Resolving a library class\<close>

definition cannot_find :: "InstancedInfTable \<Rightarrow> string \<Rightarrow> string \<Rightarrow> string" where
  "cannot_find self library_class_name scope =
     ''Cannot find library class ['' @ library_class_name @ ''] for scope ['' @ scope @
     ''] when evaluating '' @ t_dsc self"

definition lib_to_instance ::
  "InstancedInfTable \<Rightarrow> string \<Rightarrow> string \<Rightarrow> (string \<times> string) list \<Rightarrow> override_dict
     \<Rightarrow> error + string" where
  "lib_to_instance self library_class_name scope library_dict override_dict =
     (case split_str CHR ''.'' scope of
        [arch, module] \<Rightarrow>
          (case map_of (classes override_dict) library_class_name of
             Some inst \<Rightarrow> Inr inst
           | None \<Rightarrow>
          (case map_of library_dict (arch @ ''.'' @ module @ ''.'' @ library_class_name) of
             Some inst \<Rightarrow> Inr inst
           | None \<Rightarrow>
          (case map_of library_dict (''common.'' @ module @ ''.'' @ library_class_name) of
             Some inst \<Rightarrow> Inr inst
           | None \<Rightarrow>
          (case map_of library_dict (arch @ ''.'' @ library_class_name) of
             Some inst \<Rightarrow> Inr inst
           | None \<Rightarrow>
          (case map_of library_dict (''common.'' @ library_class_name) of
             Some inst \<Rightarrow> Inr inst
           | None \<Rightarrow> Inl (RuntimeError (cannot_find self library_class_name scope)))))))
      | _ \<Rightarrow> Inl ValueError)"

subsection \<open>The flat list of entries\<close>

text \<open>One entry of the flat list: the dictionary \<^verbatim>\<open>_parse_inf_recursively\<close> appends.\<close>

record entry =
  DSC :: string
  PATH :: string
  GUID :: string
  NAME :: string
  COMPONENT :: "string option"
  MODULE_TYPE :: string
  ARCH :: string
  SOURCES_USED :: "string list"
  LIBRARIES_USED :: "string list"
  PROTOCOLS_USED :: "string list"
  GUIDS_USED :: "string list"
  PPIS_USED :: "string list"
  PCDS_USED :: "string list"

text \<open>
  Step 1 of \<^verbatim>\<open>_parse_inf_recursively\<close>: every needed library class, cut at its first
  blank and lower-cased, is converted to its instance; the first failure is raised.
\<close>

fun resolve_libraries ::
  "InstancedInfTable \<Rightarrow> string list \<Rightarrow> string \<Rightarrow> (string \<times> string) list \<Rightarrow> override_dict
     \<Rightarrow> error + string list" where
  "resolve_libraries self [] scope library_dict override_dict = Inr []"
| "resolve_libraries self (lib # libs) scope library_dict override_dict =
     (let lib = lower (case split_str CHR '' '' lib of [] \<Rightarrow> [] | w # _ \<Rightarrow> w) in
      case lib_to_instance self lib scope library_dict override_dict of
        Inl e \<Rightarrow> Inl e
      | Inr inst \<Rightarrow>
          (case resolve_libraries self libs scope library_dict override_dict of
             Inl e \<Rightarrow> Inl e
           | Inr insts \<Rightarrow> Inr (inst # insts)))"

text \<open>
  The dictionary appended for the module itself. Its values are evaluated in the order they
  are written, so a missing \<^verbatim>\<open>BASE_NAME\<close> is reported before a missing \<^verbatim>\<open>MODULE_TYPE\<close>.
\<close>

definition make_entry ::
  "collaborators \<Rightarrow> InstancedInfTable \<Rightarrow> infp \<Rightarrow> string \<Rightarrow> string \<Rightarrow> string \<Rightarrow> string list
     \<Rightarrow> error + entry" where
  "make_entry ext self infp inf_file component scope library_instances =
     (case Dict infp ''BASE_NAME'' of
        None \<Rightarrow> Inl (KeyError ''BASE_NAME'')
      | Some base_name \<Rightarrow>
          (case Dict infp ''MODULE_TYPE'' of
             None \<Rightarrow> Inl (KeyError ''MODULE_TYPE'')
           | Some module_type \<Rightarrow>
               Inr \<lparr>DSC = path_name ext (t_dsc self),
                    PATH = as_posix ext inf_file,
                    GUID = (case Dict infp ''FILE_GUID'' of None \<Rightarrow> '''' | Some g \<Rightarrow> g),
                    NAME = base_name,
                    COMPONENT = Some (as_posix ext component),
                    MODULE_TYPE = module_type,
                    ARCH = upper (case split_str CHR ''.'' scope of [] \<Rightarrow> [] | w # _ \<Rightarrow> w),
                    SOURCES_USED = map (as_posix ext) (Sources infp),
                    LIBRARIES_USED = map (as_posix ext) library_instances,
                    PROTOCOLS_USED = [],
                    GUIDS_USED = [],
                    PPIS_USED = [],
                    PCDS_USED = PcdsUsed infp\<rparr>))"

text \<open>
  \<^verbatim>\<open>_parse_inf_recursively\<close>. The list \<^verbatim>\<open>visited\<close> is mutated in place by the source and
  shared by the whole recursion; here it is passed in and returned. The loop over
  \<^verbatim>\<open>filter(lambda lib: lib not in visited, library_instances)\<close> is \<open>visit_libraries\<close>: the
  filter is lazy, so each library is tested against \<^verbatim>\<open>visited\<close> as it stands when the loop
  reaches it, after the recursive calls for the libraries before it.
\<close>

function parse_inf_recursively ::
  "collaborators \<Rightarrow> InstancedInfTable \<Rightarrow> string \<Rightarrow> string \<Rightarrow> (string \<times> string) list
     \<Rightarrow> override_dict \<Rightarrow> string \<Rightarrow> string list \<Rightarrow> error + entry list \<times> string list"
and visit_libraries ::
  "collaborators \<Rightarrow> InstancedInfTable \<Rightarrow> string list \<Rightarrow> string \<Rightarrow> (string \<times> string) list
     \<Rightarrow> override_dict \<Rightarrow> string \<Rightarrow> string list \<Rightarrow> error + entry list \<times> string list"
where
  "parse_inf_recursively ext self inf_file component library_dict override_dict scope visited =
     (let visited = visited @ [inf_file] in
      case InfP_ParseFile ext inf_file of
        Inl e \<Rightarrow> Inl e
      | Inr infp \<Rightarrow>
          (case resolve_libraries self (get_libraries infp (t_arch self)) scope
                  library_dict override_dict of
             Inl e \<Rightarrow> Inl e
           | Inr resolved \<Rightarrow>
               let library_instances =
                     resolved @ filter (\<lambda>null_lib. null_lib \<noteq> inf_file) (NULL override_dict) in
               (case visit_libraries ext self library_instances component library_dict
                       override_dict scope visited of
                  Inl e \<Rightarrow> Inl e
                | Inr (to_return, visited) \<Rightarrow>
                    (case make_entry ext self infp inf_file component scope library_instances of
                       Inl e \<Rightarrow> Inl e
                     | Inr entry \<Rightarrow> Inr (to_return @ [entry], visited)))))"
| "visit_libraries ext self [] component library_dict override_dict scope visited =
     Inr ([], visited)"
| "visit_libraries ext self (library # rest) component library_dict override_dict scope visited =
     (if library \<in> set visited
      then visit_libraries ext self rest component library_dict override_dict scope visited
      else (case parse_inf_recursively ext self library component library_dict override_dict
                   scope visited of
              Inl e \<Rightarrow> Inl e
            | Inr (to_return, visited) \<Rightarrow>
                (case visit_libraries ext self rest component library_dict override_dict
                        scope visited of
                   Inl e \<Rightarrow> Inl e
                 | Inr (others, visited) \<Rightarrow> Inr (to_return @ others, visited))))"
  by pat_completeness auto


text \<open>
  Termination. Every path the recursion descends into is an instance named by the scoped
  library dictionary or by the override block; each call adds a path to \<^verbatim>\<open>visited\<close>
  that was not there, and \<^verbatim>\<open>visited\<close> never shrinks.
\<close>

definition instances_of :: "(string \<times> string) list \<Rightarrow> override_dict \<Rightarrow> string set" where
  "instances_of library_dict override_dict =
     snd ` set library_dict \<union> snd ` set (classes override_dict) \<union> set (NULL override_dict)"

lemma finite_instances_of: "finite (instances_of ld od)"
  by (simp add: instances_of_def)

lemma lib_to_instance_in:
  "lib_to_instance self cls scope ld od = Inr inst \<Longrightarrow> inst \<in> instances_of ld od"
  unfolding lib_to_instance_def instances_of_def
  by (auto split: list.splits option.splits dest!: map_of_SomeD intro: rev_image_eqI)

lemma resolve_libraries_in:
  "resolve_libraries self libs scope ld od = Inr insts \<Longrightarrow> set insts \<subseteq> instances_of ld od"
proof (induction libs arbitrary: insts)
  case Nil
  then show ?case by simp
next
  case (Cons lib libs)
  then show ?case
    by (auto simp: Let_def split: sum.splits dest: lib_to_instance_in)
qed

lemma visited_grows_dom:
  "parse_inf_recursively_visit_libraries_dom
     (Inl (ext, self, inf_file, component, ld, od, scope, visited)) \<Longrightarrow>
   parse_inf_recursively ext self inf_file component ld od scope visited = Inr (rows, v) \<Longrightarrow>
   set visited \<subseteq> set v"
  "parse_inf_recursively_visit_libraries_dom
     (Inr (ext, self, libs, component, ld, od, scope, visited)) \<Longrightarrow>
   visit_libraries ext self libs component ld od scope visited = Inr (rows, v) \<Longrightarrow>
   set visited \<subseteq> set v"
proof (induction ext self inf_file component ld od scope visited
         and ext self libs component ld od scope visited
       arbitrary: rows v and rows v
       rule: parse_inf_recursively_visit_libraries.pinduct)
  case (1 ext self inf_file component library_dict override_dict scope visited)
  from "1.prems" "1.hyps" show ?case
    by (auto simp: parse_inf_recursively.psimps Let_def split: sum.splits prod.splits
             dest!: "1.IH" [OF refl _ _ refl])
next
  case (2 ext self component library_dict override_dict scope visited)
  then show ?case by (simp add: visit_libraries.psimps)
next
  case (3 ext self library rest component library_dict override_dict scope visited)
  show ?case
  proof (cases "library \<in> set visited")
    case True
    with "3.prems" "3.hyps" "3.IH"(1) show ?thesis
      by (simp add: visit_libraries.psimps)
  next
    case False
    with "3.prems" "3.hyps" obtain r1 v1 r2 where
      a: "parse_inf_recursively ext self library component library_dict override_dict scope
            visited = Inr (r1, v1)" and
      b: "visit_libraries ext self rest component library_dict override_dict scope v1
            = Inr (r2, v)"
      by (auto simp: visit_libraries.psimps split: sum.splits prod.splits)
    from "3.IH"(2) [OF False a] have "set visited \<subseteq> set v1" .
    moreover from "3.IH"(3) [OF False a refl b] have "set v1 \<subseteq> set v" .
    ultimately show ?thesis by simp
  qed
qed

definition expansion_measure ::
  "collaborators \<times> InstancedInfTable \<times> string \<times> string \<times> (string \<times> string) list
      \<times> override_dict \<times> string \<times> string list
   + collaborators \<times> InstancedInfTable \<times> string list \<times> string \<times> (string \<times> string) list
      \<times> override_dict \<times> string \<times> string list
   \<Rightarrow> nat \<times> nat \<times> nat" where
  "expansion_measure call =
     (case call of
        Inl (ext, self, inf_file, component, ld, od, scope, visited) \<Rightarrow>
          (card (instances_of ld od - set (visited @ [inf_file])), 1, 0)
      | Inr (ext, self, libs, component, ld, od, scope, visited) \<Rightarrow>
          (card ((instances_of ld od \<union> set libs) - set visited), 0, length libs))"

termination parse_inf_recursively
proof (relation "inv_image (less_than <*lex*> less_than <*lex*> less_than) expansion_measure",
       goal_cases)
  case 1
  then show ?case by (intro wf_inv_image wf_lex_prod wf_less_than)
next
  case (2 ext self inf_file component library_dict override_dict scope visited x b ba xa)
  from resolve_libraries_in [OF 2(3)]
  have "instances_of library_dict override_dict \<union> set xa = instances_of library_dict override_dict"
    unfolding 2(4) by (auto simp: instances_of_def)
  with 2(1) show ?case by (simp add: expansion_measure_def)
next
  case (3 ext self library rest component library_dict override_dict scope visited)
  have "card ((instances_of library_dict override_dict \<union> set rest) - set visited)
          \<le> card ((instances_of library_dict override_dict \<union> set (library # rest)) - set visited)"
    by (rule card_mono) (auto simp: finite_instances_of)
  then show ?case by (auto simp: expansion_measure_def)
next
  case (4 ext self library rest component library_dict override_dict scope visited)
  have "instances_of library_dict override_dict - set (visited @ [library])
          \<subset> (instances_of library_dict override_dict \<union> set (library # rest)) - set visited"
    using 4 by auto
  then have "card (instances_of library_dict override_dict - set (visited @ [library]))
          < card ((instances_of library_dict override_dict \<union> set (library # rest)) - set visited)"
    by (intro psubset_card_mono) (auto simp: finite_instances_of)
  then show ?case by (simp add: expansion_measure_def)
next
  case (5 ext self library rest component library_dict override_dict scope visited b x y)
  from 5(2,3) have run: "parse_inf_recursively ext self library component library_dict
      override_dict scope visited = Inr (x, y)" by simp
  from visited_grows_dom(1) [OF 5(4) run] have "set visited \<subseteq> set y" .
  then have "card ((instances_of library_dict override_dict \<union> set rest) - set y)
          \<le> card ((instances_of library_dict override_dict \<union> set (library # rest)) - set visited)"
    by (intro card_mono) (auto simp: finite_instances_of)
  then show ?case by (auto simp: expansion_measure_def)
qed

subsection \<open>Building the table\<close>

text \<open>
  The first loop of \<^verbatim>\<open>_build_inf_table\<close>: a component that is itself a library
  (\<^verbatim>\<open>LIBRARY_CLASS\<close> in its dictionary) is skipped; otherwise the lower-cased module type is
  appended to the scope, when there is one, and the component is expanded with a fresh, empty
  \<^verbatim>\<open>visited\<close>.
\<close>

fun component_entries ::
  "collaborators \<Rightarrow> InstancedInfTable \<Rightarrow> (string \<times> string) list
     \<Rightarrow> (string \<times> string \<times> override_dict) list \<Rightarrow> error + entry list" where
  "component_entries ext self library_dict [] = Inr []"
| "component_entries ext self library_dict ((inf_file, scope, overrides) # rest) =
     (case InfP_ParseFile ext inf_file of
        Inl e \<Rightarrow> Inl e
      | Inr infp \<Rightarrow>
          if Dict infp ''LIBRARY_CLASS'' \<noteq> None
          then component_entries ext self library_dict rest
          else
            let scope = (case Dict infp ''MODULE_TYPE'' of
                           None \<Rightarrow> scope
                         | Some module_type \<Rightarrow> scope @ lower (''.'' @ module_type)) in
            (case parse_inf_recursively ext self inf_file inf_file library_dict overrides
                    scope [] of
               Inl e \<Rightarrow> Inl e
             | Inr (inf_entries, visited) \<Rightarrow>
                 (case component_entries ext self library_dict rest of
                    Inl e \<Rightarrow> Inl e
                  | Inr others \<Rightarrow> Inr (inf_entries @ others))))"

text \<open>The second loop: an entry whose path is its component is a component.\<close>

definition move_entry :: "entry \<Rightarrow> entry" where
  "move_entry entry =
     (if Some (PATH entry) = COMPONENT entry then entry\<lparr>COMPONENT := None\<rparr> else entry)"

definition build_inf_table ::
  "collaborators \<Rightarrow> InstancedInfTable \<Rightarrow> dscp \<Rightarrow> error + entry list" where
  "build_inf_table ext self dscp =
     (case component_entries ext self (ScopedLibraryDict dscp) (Components dscp) of
        Inl e \<Rightarrow> Inl e
      | Inr inf_entries \<Rightarrow> Inr (map move_entry inf_entries))"

subsection \<open>Notions for the statements about the expansion\<close>

text \<open>
  A declared component that is itself a library: the test of \<^verbatim>\<open>_build_inf_table\<close> on the
  parsed module (used to count the components that are expanded).
\<close>

definition is_library :: "collaborators \<Rightarrow> string \<times> string \<times> override_dict \<Rightarrow> bool" where
  "is_library ext component =
     (case InfP_ParseFile ext (fst component) of
        Inl e \<Rightarrow> False
      | Inr infp \<Rightarrow> Dict infp ''LIBRARY_CLASS'' \<noteq> None)"

text \<open>
  A module the expansion has gone through: it parsed, every library class it needs
  resolved, and the list holds an entry for it whose \<^verbatim>\<open>LIBRARIES_USED\<close> are all of its
  resolved instances and the NULL instances other than itself.
\<close>

definition expanded ::
  "collaborators \<Rightarrow> InstancedInfTable \<Rightarrow> (string \<times> string) list \<Rightarrow> override_dict \<Rightarrow> string
     \<Rightarrow> entry list \<Rightarrow> string \<Rightarrow> bool" where
  "expanded ext self ld od scope rows n \<longleftrightarrow>
     (\<exists>infp resolved entry.
        InfP_ParseFile ext n = Inr infp \<and>
        resolve_libraries self (get_libraries infp (t_arch self)) scope ld od = Inr resolved \<and>
        entry \<in> set rows \<and> PATH entry = as_posix ext n \<and>
        LIBRARIES_USED entry =
          map (as_posix ext) (resolved @ filter (\<lambda>null_lib. null_lib \<noteq> n) (NULL od)))"

text \<open>
  The body of the first loop of \<^verbatim>\<open>_build_inf_table\<close> for one declared component that is
  not skipped: the scope with the module type appended, and the call of
  \<^verbatim>\<open>_parse_inf_recursively\<close> on the component with a new, empty \<^verbatim>\<open>visited\<close>.
\<close>

definition component_scope :: "collaborators \<Rightarrow> string \<times> string \<times> override_dict \<Rightarrow> string" where
  "component_scope ext component =
     (case InfP_ParseFile ext (fst component) of
        Inl e \<Rightarrow> fst (snd component)
      | Inr infp \<Rightarrow>
          (case Dict infp ''MODULE_TYPE'' of
             None \<Rightarrow> fst (snd component)
           | Some module_type \<Rightarrow> fst (snd component) @ lower (''.'' @ module_type)))"

definition expand_component ::
  "collaborators \<Rightarrow> InstancedInfTable \<Rightarrow> (string \<times> string) list
     \<Rightarrow> string \<times> string \<times> override_dict \<Rightarrow> error + entry list \<times> string list" where
  "expand_component ext self library_dict component =
     parse_inf_recursively ext self (fst component) (fst component) library_dict
       (snd (snd component)) (component_scope ext component) []"

text \<open>
  One module uses another, in the expansion of a component with the given dictionaries
  and scope: the first parses, all its classes resolve, and the second is one of the
  instances \<^verbatim>\<open>_parse_inf_recursively\<close> then puts in \<^verbatim>\<open>library_instances\<close>. The modules the
  recursion can come to from a component are those in the reflexive transitive closure.
\<close>

definition uses ::
  "collaborators \<Rightarrow> InstancedInfTable \<Rightarrow> (string \<times> string) list \<Rightarrow> override_dict \<Rightarrow> string
     \<Rightarrow> (string \<times> string) set" where
  "uses ext self ld od scope =
     {(n, m). \<exists>infp resolved.
        InfP_ParseFile ext n = Inr infp \<and>
        resolve_libraries self (get_libraries infp (t_arch self)) scope ld od = Inr resolved \<and>
        m \<in> set (resolved @ filter (\<lambda>null_lib. null_lib \<noteq> n) (NULL od))}"

section \<open>The store\<close>

text \<open>
  The part of the SQLite database the modelled code reads and writes: the names of the
  existing tables, the rows of \<^verbatim>\<open>environment\<close> (identifier and date; the table belongs to
  another generator), the rows of \<^verbatim>\<open>instanced_inf\<close> in the order of their row identifiers
  with the last identifier \<^verbatim>\<open>AUTOINCREMENT\<close> gave out, and the rows of \<^verbatim>\<open>junction\<close>.
  A key of \<^verbatim>\<open>junction\<close> is kept as the value the code passes, a row identifier or a
  source path (the columns are declared \<^verbatim>\<open>TEXT\<close>, so SQLite stores an identifier as its
  decimal text).
\<close>

datatype sqlval = Integer nat | Text string

record instanced_inf_row =
  row_id :: nat
  row_env :: nat
  row_dsc :: string
  row_path :: string
  row_name :: string
  row_arch :: string
  row_component :: "string option"

record junction_row =
  table1 :: string
  key1 :: sqlval
  table2 :: string
  key2 :: sqlval

record store =
  tables :: "string set"
  environment :: "(nat \<times> nat) list"
  instanced_inf :: "instanced_inf_row list"
  instanced_inf_seq :: nat
  junction :: "junction_row list"

definition no_such_table :: "string \<Rightarrow> error" where
  "no_such_table t = OperationalError (''no such table: '' @ t)"

definition CREATE_TABLE_IF_NOT_EXISTS :: "string \<Rightarrow> store \<Rightarrow> store" where
  "CREATE_TABLE_IF_NOT_EXISTS t db = db\<lparr>tables := insert t (tables db)\<rparr>"

text \<open>
  \<^verbatim>\<open>SELECT id FROM environment ORDER BY date DESC LIMIT 1\<close>, then \<^verbatim>\<open>fetchone()[0]\<close>: the
  row of the latest date (the earliest such row, should two share it); subscripting the
  \<^verbatim>\<open>None\<close> of an empty result raises \<^verbatim>\<open>TypeError\<close>.
\<close>

fun latest :: "(nat \<times> nat) list \<Rightarrow> (nat \<times> nat) option" where
  "latest [] = None"
| "latest (r # rs) =
     (case latest rs of
        None \<Rightarrow> Some r
      | Some r' \<Rightarrow> if snd r < snd r' then Some r' else Some r)"

definition SELECT_LATEST_ENVIRONMENT :: "store \<Rightarrow> error + nat" where
  "SELECT_LATEST_ENVIRONMENT db =
     (if ''environment'' \<notin> tables db then Inl (no_such_table ''environment'')
      else (case latest (environment db) of
              None \<Rightarrow> Inl TypeError
            | Some r \<Rightarrow> Inr (fst r)))"

text \<open>\<^verbatim>\<open>INSERT_INSTANCED_INF_ROW\<close>: the new row takes the next identifier.\<close>

definition INSERT_INSTANCED_INF_ROW :: "nat \<Rightarrow> entry \<Rightarrow> store \<Rightarrow> error option \<times> store" where
  "INSERT_INSTANCED_INF_ROW env entry db =
     (if ''instanced_inf'' \<notin> tables db then (Some (no_such_table ''instanced_inf''), db)
      else
        (None,
         db\<lparr>instanced_inf := instanced_inf db @
               [\<lparr>row_id = Suc (instanced_inf_seq db), row_env = env, row_dsc = DSC entry,
                 row_path = PATH entry, row_name = NAME entry, row_arch = ARCH entry,
                 row_component = COMPONENT entry\<rparr>],
            instanced_inf_seq := Suc (instanced_inf_seq db)\<rparr>))"

definition INSERT_JUNCTION_ROW ::
  "string \<Rightarrow> sqlval \<Rightarrow> string \<Rightarrow> sqlval \<Rightarrow> store \<Rightarrow> error option \<times> store" where
  "INSERT_JUNCTION_ROW t1 k1 t2 k2 db =
     (if ''junction'' \<notin> tables db then (Some (no_such_table ''junction''), db)
      else (None, db\<lparr>junction := junction db @
                         [\<lparr>table1 = t1, key1 = k1, table2 = t2, key2 = k2\<rparr>]\<rparr>))"

text \<open>
  \<^verbatim>\<open>GET_ROW_ID\<close>: the rows that match the triple, and \<^verbatim>\<open>fetchone()[0]\<close> of the query, which
  takes the first of them (\<^verbatim>\<open>LIMIT 1\<close>) and raises \<^verbatim>\<open>TypeError\<close> when there is none.
\<close>

definition matching_rows :: "store \<Rightarrow> nat \<Rightarrow> string \<Rightarrow> string \<Rightarrow> instanced_inf_row list" where
  "matching_rows db env path dsc =
     filter (\<lambda>r. row_env r = env \<and> row_path r = path \<and> row_dsc r = dsc) (instanced_inf db)"

definition GET_ROW_ID :: "store \<Rightarrow> nat \<Rightarrow> string \<Rightarrow> string \<Rightarrow> error + nat" where
  "GET_ROW_ID db env path dsc =
     (if ''instanced_inf'' \<notin> tables db then Inl (no_such_table ''instanced_inf'')
      else (case matching_rows db env path dsc of
              [] \<Rightarrow> Inl TypeError
            | r # _ \<Rightarrow> Inr (row_id r)))"

section \<open>InstancedInfTable.parse\<close>

definition InstancedInfTable_create_tables :: "store \<Rightarrow> error option \<times> store" where
  "InstancedInfTable_create_tables db = (None, CREATE_TABLE_IF_NOT_EXISTS ''instanced_inf'' db)"

text \<open>The loop that rewrites absolute paths: only the key \<^verbatim>\<open>PATH\<close> is assigned.\<close>

definition relativize :: "collaborators \<Rightarrow> entry \<Rightarrow> entry" where
  "relativize ext entry =
     (if is_absolute ext (PATH entry)
      then entry\<lparr>PATH := GetEdk2RelativePathFromAbsolutePath ext (PATH entry)\<rparr>
      else entry)"

fun add_instanced_inf_entries :: "nat \<Rightarrow> entry list \<Rightarrow> store \<Rightarrow> error option \<times> store" where
  "add_instanced_inf_entries env [] db = (None, db)"
| "add_instanced_inf_entries env (entry # inf_entries) db =
     (case INSERT_INSTANCED_INF_ROW env entry db of
        (Some e, db) \<Rightarrow> (Some e, db)
      | (None, db) \<Rightarrow> add_instanced_inf_entries env inf_entries db)"

fun add_source_edges :: "nat \<Rightarrow> string list \<Rightarrow> store \<Rightarrow> error option \<times> store" where
  "add_source_edges inf_id [] db = (None, db)"
| "add_source_edges inf_id (source # sources) db =
     (case INSERT_JUNCTION_ROW ''instanced_inf'' (Integer inf_id) ''source'' (Text source) db of
        (Some e, db) \<Rightarrow> (Some e, db)
      | (None, db) \<Rightarrow> add_source_edges inf_id sources db)"

fun add_library_edges ::
  "nat \<Rightarrow> string \<Rightarrow> nat \<Rightarrow> string list \<Rightarrow> store \<Rightarrow> error option \<times> store" where
  "add_library_edges env dsc inf_id [] db = (None, db)"
| "add_library_edges env dsc inf_id (library # libraries) db =
     (case GET_ROW_ID db env library dsc of
        Inl e \<Rightarrow> (Some e, db)
      | Inr used_inf_id \<Rightarrow>
          (case INSERT_JUNCTION_ROW ''instanced_inf'' (Integer inf_id)
                  ''instanced_inf'' (Integer used_inf_id) db of
             (Some e, db) \<Rightarrow> (Some e, db)
           | (None, db) \<Rightarrow> add_library_edges env dsc inf_id libraries db))"

fun add_junction_entries :: "nat \<Rightarrow> entry list \<Rightarrow> store \<Rightarrow> error option \<times> store" where
  "add_junction_entries env [] db = (None, db)"
| "add_junction_entries env (entry # inf_entries) db =
     (case GET_ROW_ID db env (PATH entry) (DSC entry) of
        Inl e \<Rightarrow> (Some e, db)
      | Inr inf_id \<Rightarrow>
          (case add_source_edges inf_id (SOURCES_USED entry) db of
             (Some e, db) \<Rightarrow> (Some e, db)
           | (None, db) \<Rightarrow>
               (case add_library_edges env (DSC entry) inf_id (LIBRARIES_USED entry) db of
                  (Some e, db) \<Rightarrow> (Some e, db)
                | (None, db) \<Rightarrow> add_junction_entries env inf_entries db)))"

text \<open>
  \<^verbatim>\<open>InstancedInfTable.parse\<close> on the store behind the cursor. It returns the exception raised,
  if any, and the store as the cursor left it.
\<close>

definition InstancedInfTable_parse ::
  "collaborators \<Rightarrow> InstancedInfTable \<Rightarrow> store \<Rightarrow> error option \<times> store" where
  "InstancedInfTable_parse ext self db =
     (case DscP_ParseFile ext (t_env self) (t_dsc self) of
        Inl e \<Rightarrow> (Some e, db)
      | Inr dscp \<Rightarrow>
          (case build_inf_table ext self dscp of
             Inl e \<Rightarrow> (Some e, db)
           | Inr inf_entries \<Rightarrow>
               let inf_entries = map (relativize ext) inf_entries in
               (case SELECT_LATEST_ENVIRONMENT db of
                  Inl e \<Rightarrow> (Some e, db)
                | Inr env \<Rightarrow>
                    (case add_instanced_inf_entries env inf_entries db of
                       (Some e, db) \<Rightarrow> (Some e, db)
                     | (None, db) \<Rightarrow> add_junction_entries env inf_entries db))))"

section \<open>Edk2DB\<close>

text \<open>
  A table generator is its two methods, as functions on the store behind the cursor it is
  given. The base class raises \<^verbatim>\<open>NotImplementedError\<close> in both.
\<close>

record TableGenerator =
  create_tables :: "store \<Rightarrow> error option \<times> store"
  parse :: "store \<Rightarrow> error option \<times> store"

definition base_TableGenerator :: TableGenerator where
  "base_TableGenerator =
     \<lparr>create_tables = (\<lambda>db. (Some NotImplementedError, db)),
      parse = (\<lambda>db. (Some NotImplementedError, db))\<rparr>"

definition InstancedInfTable_generator ::
  "collaborators \<Rightarrow> InstancedInfTable \<Rightarrow> TableGenerator" where
  "InstancedInfTable_generator ext self =
     \<lparr>create_tables = InstancedInfTable_create_tables,
      parse = InstancedInfTable_parse ext self\<rparr>"

text \<open>
  The connection: the database as committed, the database as the connection sees it
  (committed or not), and whether the connection is closed. Every statement acts on the
  second; \<^verbatim>\<open>commit\<close> makes it the first. (sqlite3 commits a \<^verbatim>\<open>CREATE TABLE\<close> issued outside
  a transaction at once; the model keeps it pending until the next commit, and nothing
  below depends on when a table becomes durable.)
\<close>

record connection =
  committed :: store
  pending :: store
  closed :: bool

definition commit :: "connection \<Rightarrow> connection" where
  "commit c = c\<lparr>committed := pending c\<rparr>"

definition close :: "connection \<Rightarrow> connection" where
  "close c = c\<lparr>pending := committed c, closed := True\<rparr>"

definition CREATE_JUNCTION_TABLE :: "connection \<Rightarrow> connection" where
  "CREATE_JUNCTION_TABLE c = c\<lparr>pending := CREATE_TABLE_IF_NOT_EXISTS ''junction'' (pending c)\<rparr>"

text \<open>A method of a generator, run on a cursor of the connection.\<close>

definition on_cursor ::
  "(store \<Rightarrow> error option \<times> store) \<Rightarrow> connection \<Rightarrow> error option \<times> connection" where
  "on_cursor method c = (case method (pending c) of (r, db) \<Rightarrow> (r, c\<lparr>pending := db\<rparr>))"

record Edk2DB =
  parsers :: "TableGenerator list"
  connection :: connection

definition register :: "Edk2DB \<Rightarrow> TableGenerator list \<Rightarrow> Edk2DB" where
  "register self ps = self\<lparr>parsers := parsers self @ ps\<rparr>"

definition clear_parsers :: "Edk2DB \<Rightarrow> Edk2DB" where
  "clear_parsers self = self\<lparr>parsers := []\<rparr>"

text \<open>The two loops of \<^verbatim>\<open>Edk2DB.parse\<close>; an exception leaves the loop and the method.\<close>

fun create_all_tables :: "TableGenerator list \<Rightarrow> connection \<Rightarrow> error option \<times> connection" where
  "create_all_tables [] c = (None, c)"
| "create_all_tables (parser # ps) c =
     (case on_cursor (create_tables parser) c of
        (Some e, c) \<Rightarrow> (Some e, c)
      | (None, c) \<Rightarrow> create_all_tables ps c)"

fun fill_all_tables :: "TableGenerator list \<Rightarrow> connection \<Rightarrow> error option \<times> connection" where
  "fill_all_tables [] c = (None, c)"
| "fill_all_tables (parser # ps) c =
     (case on_cursor (parse parser) c of
        (Some e, c) \<Rightarrow> (Some e, c)
      | (None, c) \<Rightarrow> fill_all_tables ps (commit c))"

definition Edk2DB_parse :: "Edk2DB \<Rightarrow> error option \<times> Edk2DB" where
  "Edk2DB_parse self =
     (case create_all_tables (parsers self) (CREATE_JUNCTION_TABLE (connection self)) of
        (Some e, c) \<Rightarrow> (Some e, self\<lparr>connection := c\<rparr>)
      | (None, c) \<Rightarrow>
          (case fill_all_tables (parsers self) c of
             (r, c) \<Rightarrow> (r, self\<lparr>connection := c\<rparr>)))"

text \<open>\<^verbatim>\<open>__exit__\<close>: commit, then close, whatever the reason for leaving the block.\<close>

definition Edk2DB_exit :: "Edk2DB \<Rightarrow> Edk2DB" where
  "Edk2DB_exit self = self\<lparr>connection := close (commit (connection self))\<rparr>"

subsection \<open>The order of Edk2DB.parse as specified\<close>

text \<open>
  The order of \<^verbatim>\<open>Edk2DB.parse\<close> in the words of the specification: a list of steps, run
  one after the other until one raises. What a step does is said here on the connection
  itself, without the operations the model of the source is written with: ensuring the
  junction table adds its name to the tables of the database the connection sees; a method
  of a generator is applied to that database, and its exception, if any, and the database
  it leaves are taken over; a commit makes that database the committed one. This second
  description is compared with \<open>Edk2DB_parse\<close>, the one taken from the source.
\<close>

datatype step =
    Ensure_junction_table
  | Create_tables TableGenerator
  | Parse TableGenerator
  | Commit

fun spec_do_step :: "step \<Rightarrow> connection \<Rightarrow> error option \<times> connection" where
  "spec_do_step Ensure_junction_table c =
     (None, c\<lparr>pending := (pending c)\<lparr>tables := insert ''junction'' (tables (pending c))\<rparr>\<rparr>)"
| "spec_do_step (Create_tables generator) c =
     (fst (create_tables generator (pending c)),
      c\<lparr>pending := snd (create_tables generator (pending c))\<rparr>)"
| "spec_do_step (Parse generator) c =
     (fst (parse generator (pending c)), c\<lparr>pending := snd (parse generator (pending c))\<rparr>)"
| "spec_do_step Commit c = (None, c\<lparr>committed := pending c\<rparr>)"

fun spec_run_steps :: "step list \<Rightarrow> connection \<Rightarrow> error option \<times> connection" where
  "spec_run_steps [] c = (None, c)"
| "spec_run_steps (s # steps) c =
     (case spec_do_step s c of
        (Some e, c) \<Rightarrow> (Some e, c)
      | (None, c) \<Rightarrow> spec_run_steps steps c)"

definition spec_parse_steps :: "TableGenerator list \<Rightarrow> step list" where
  "spec_parse_steps ps =
     Ensure_junction_table # map Create_tables ps @ concat (map (\<lambda>p. [Parse p, Commit]) ps)"

text \<open>
  A generator that records its calls: each method inserts a junction row with the name
  of the method and of the generator, which sqlite3 refuses as long as the junction table
  does not exist. And a database without tables.
\<close>

definition recording_generator :: "string \<Rightarrow> TableGenerator" where
  "recording_generator name =
     \<lparr>create_tables = INSERT_JUNCTION_ROW ''create_tables'' (Text name) ''generator'' (Text name),
      parse = INSERT_JUNCTION_ROW ''parse'' (Text name) ''generator'' (Text name)\<rparr>"

definition call_row :: "string \<Rightarrow> string \<Rightarrow> junction_row" where
  "call_row method name = \<lparr>table1 = method, key1 = Text name, table2 = ''generator'', key2 = Text name\<rparr>"

definition empty_store :: store where
  "empty_store =
     \<lparr>tables = {}, environment = [], instanced_inf = [], instanced_inf_seq = 0, junction = []\<rparr>"

definition empty_connection :: connection where
  "empty_connection = \<lparr>committed = empty_store, pending = empty_store, closed = False\<rparr>"

section \<open>What parse leaves in the store\<close>

text \<open>
  The rows \<^verbatim>\<open>parse\<close> inserts for a list of entries when the last identifier given out
  was \<open>seq\<close>, the edge between two rows, and the relation between two states of the store
  of which the second has the same tables and rows and at least the same edges.
\<close>

fun new_rows :: "nat \<Rightarrow> nat \<Rightarrow> entry list \<Rightarrow> instanced_inf_row list" where
  "new_rows env seq [] = []"
| "new_rows env seq (entry # inf_entries) =
     \<lparr>row_id = Suc seq, row_env = env, row_dsc = DSC entry, row_path = PATH entry,
      row_name = NAME entry, row_arch = ARCH entry, row_component = COMPONENT entry\<rparr>
     # new_rows env (Suc seq) inf_entries"

definition library_edge :: "nat \<Rightarrow> nat \<Rightarrow> junction_row" where
  "library_edge inf_id used_inf_id =
     \<lparr>table1 = ''instanced_inf'', key1 = Integer inf_id,
      table2 = ''instanced_inf'', key2 = Integer used_inf_id\<rparr>"

definition source_edge :: "nat \<Rightarrow> string \<Rightarrow> junction_row" where
  "source_edge inf_id source =
     \<lparr>table1 = ''instanced_inf'', key1 = Integer inf_id, table2 = ''source'', key2 = Text source\<rparr>"

definition same_rows :: "store \<Rightarrow> store \<Rightarrow> bool" where
  "same_rows db db' \<longleftrightarrow>
     tables db' = tables db \<and> environment db' = environment db \<and>
     instanced_inf db' = instanced_inf db \<and> instanced_inf_seq db' = instanced_inf_seq db \<and>
     (\<exists>edges. junction db' = junction db @ edges)"

section \<open>Examples\<close>

definition example_table :: InstancedInfTable where
  "example_table =
     \<lparr>t_env = [''ACTIVE_PLATFORM'' \<mapsto> ''Platform.dsc'', ''TARGET_ARCH'' \<mapsto> ''IA32 X64'',
               ''TARGET'' \<mapsto> ''DEBUG''],
      t_dsc = ''Platform.dsc'', t_fdf = '''', t_arch = [''IA32'', ''X64''], t_target = ''DEBUG''\<rparr>"

text \<open>
  A small workspace. \<^verbatim>\<open>Comp.inf\<close> needs the classes ClsA and ClsB, whose instances
  \<^verbatim>\<open>LibA.inf\<close> and \<^verbatim>\<open>LibB.inf\<close> both need ClsC, with the instance \<^verbatim>\<open>LibC.inf\<close>: a diamond.
  \<^verbatim>\<open>Comp2.inf\<close>, \<^verbatim>\<open>Comp4.inf\<close> and the absolute \<^verbatim>\<open>/ws/Pkg/Comp2.inf\<close> need ClsC only, and
  \<^verbatim>\<open>Comp3.inf\<close> needs ClsX, which no section of a platform description maps.
\<close>

definition module_view :: "string \<Rightarrow> string \<Rightarrow> string list \<Rightarrow> infp" where
  "module_view base_name module_type libraries =
     \<lparr>Dict = [''BASE_NAME'' \<mapsto> base_name, ''MODULE_TYPE'' \<mapsto> module_type],
      get_libraries = (\<lambda>arch. libraries), Sources = [base_name @ ''.c''], PcdsUsed = []\<rparr>"

definition library_view :: "string \<Rightarrow> string \<Rightarrow> string list \<Rightarrow> infp" where
  "library_view base_name library_class libraries =
     \<lparr>Dict = [''BASE_NAME'' \<mapsto> base_name, ''MODULE_TYPE'' \<mapsto> ''BASE'',
              ''LIBRARY_CLASS'' \<mapsto> library_class],
      get_libraries = (\<lambda>arch. libraries), Sources = [], PcdsUsed = []\<rparr>"

definition example_inf :: "string \<Rightarrow> error + infp" where
  "example_inf p =
     (if p = ''Comp.inf'' then Inr (module_view ''Comp'' ''DXE_DRIVER'' [''ClsA'', ''ClsB''])
      else if p = ''Comp2.inf'' \<or> p = ''/ws/Pkg/Comp2.inf''
        then Inr (module_view ''Comp2'' ''DXE_DRIVER'' [''ClsC''])
      else if p = ''Comp3.inf'' then Inr (module_view ''Comp3'' ''PEIM'' [''ClsX''])
      else if p = ''Comp4.inf'' then Inr (module_view ''Comp4'' ''DXE_DRIVER'' [''ClsC''])
      else if p = ''LibA.inf'' then Inr (library_view ''LibA'' ''ClsA'' [''ClsC''])
      else if p = ''LibB.inf'' then Inr (library_view ''LibB'' ''ClsB'' [''ClsC''])
      else if p = ''LibC.inf'' then Inr (library_view ''LibC'' ''ClsC'' [])
      else Inl (ParserError p))"

definition example_library_dict :: "(string \<times> string) list" where
  "example_library_dict =
     [(''common.clsa'', ''LibA.inf''), (''common.clsb'', ''LibB.inf''),
      (''common.clsc'', ''LibC.inf'')]"

definition no_overrides :: override_dict where
  "no_overrides = \<lparr>classes = [], NULL = []\<rparr>"

definition example_components :: "string \<Rightarrow> (string \<times> string \<times> override_dict) list" where
  "example_components p =
     (if p = ''Platform.dsc'' then [(''Comp.inf'', ''ia32'', no_overrides)]
      else if p = ''Shared.dsc''
        then [(''Comp2.inf'', ''ia32'', no_overrides), (''Comp4.inf'', ''ia32'', no_overrides)]
      else if p = ''Mixed.dsc''
        then [(''Comp2.inf'', ''ia32'', no_overrides), (''LibC.inf'', ''ia32'', no_overrides)]
      else if p = ''Absolute.dsc'' then [(''/ws/Pkg/Comp2.inf'', ''ia32'', no_overrides)]
      else if p = ''Missing.dsc'' then [(''Comp3.inf'', ''x64'', no_overrides)]
      else [])"

definition example_dscp :: "string \<Rightarrow> dscp" where
  "example_dscp p =
     \<lparr>Components = example_components p, ScopedLibraryDict = example_library_dict\<rparr>"

text \<open>
  The collaborators of the example: paths are written in posix form already, the name
  of a platform description is the whole path, a path is absolute when it starts with a
  slash, and the workspace root is \<^verbatim>\<open>/ws/\<close>.
\<close>

definition example_ext :: collaborators where
  "example_ext =
     \<lparr>as_posix = (\<lambda>p. p),
      path_name = (\<lambda>p. p),
      is_absolute = (\<lambda>p. take 1 p = ''/''),
      GetEdk2RelativePathFromAbsolutePath = drop 4,
      InfP_ParseFile = example_inf,
      DscP_ParseFile = (\<lambda>env p. Inr (example_dscp p))\<rparr>"

definition example_store :: store where
  "example_store =
     \<lparr>tables = {''environment'', ''junction'', ''instanced_inf''},
      environment = [(1, 100)], instanced_inf = [], instanced_inf_seq = 0, junction = []\<rparr>"

definition example_entry ::
  "string \<Rightarrow> string \<Rightarrow> string \<Rightarrow> string \<Rightarrow> string option \<Rightarrow> string list \<Rightarrow> string list \<Rightarrow> entry" where
  "example_entry dsc path base_name module_type component sources libraries =
     \<lparr>DSC = dsc, PATH = path, GUID = '''', NAME = base_name, COMPONENT = component,
      MODULE_TYPE = module_type, ARCH = ''IA32'', SOURCES_USED = sources,
      LIBRARIES_USED = libraries, PROTOCOLS_USED = [], GUIDS_USED = [], PPIS_USED = [],
      PCDS_USED = []\<rparr>"

definition diamond_entries :: "entry list" where
  "diamond_entries =
     [example_entry ''Platform.dsc'' ''LibC.inf'' ''LibC'' ''BASE'' (Some ''Comp.inf'') [] [],
      example_entry ''Platform.dsc'' ''LibA.inf'' ''LibA'' ''BASE'' (Some ''Comp.inf'') []
        [''LibC.inf''],
      example_entry ''Platform.dsc'' ''LibB.inf'' ''LibB'' ''BASE'' (Some ''Comp.inf'') []
        [''LibC.inf''],
      example_entry ''Platform.dsc'' ''Comp.inf'' ''Comp'' ''DXE_DRIVER'' (Some ''Comp.inf'')
        [''Comp.c''] [''LibA.inf'', ''LibB.inf'']]"

definition example_table_for :: "string \<Rightarrow> InstancedInfTable" where
  "example_table_for p = example_table\<lparr>t_dsc := p\<rparr>"

definition mixed_entries :: "entry list" where
  "mixed_entries =
     [example_entry ''Mixed.dsc'' ''LibC.inf'' ''LibC'' ''BASE'' (Some ''Comp2.inf'') [] [],
      example_entry ''Mixed.dsc'' ''Comp2.inf'' ''Comp2'' ''DXE_DRIVER'' None
        [''Comp2.c''] [''LibC.inf'']]"

definition example_row ::
  "nat \<Rightarrow> string \<Rightarrow> string \<Rightarrow> string \<Rightarrow> string option \<Rightarrow> instanced_inf_row" where
  "example_row n dsc path base_name component =
     \<lparr>row_id = n, row_env = 1, row_dsc = dsc, row_path = path, row_name = base_name,
      row_arch = ''IA32'', row_component = component\<rparr>"

definition diamond_store :: store where
  "diamond_store = example_store\<lparr>
     instanced_inf :=
       [example_row 1 ''Platform.dsc'' ''LibC.inf'' ''LibC'' (Some ''Comp.inf''),
        example_row 2 ''Platform.dsc'' ''LibA.inf'' ''LibA'' (Some ''Comp.inf''),
        example_row 3 ''Platform.dsc'' ''LibB.inf'' ''LibB'' (Some ''Comp.inf''),
        example_row 4 ''Platform.dsc'' ''Comp.inf'' ''Comp'' None],
     instanced_inf_seq := 4,
     junction :=
       [library_edge 2 1, library_edge 3 1, source_edge 4 ''Comp.c'', library_edge 4 2,
        library_edge 4 3]\<rparr>"

definition shared_store :: store where
  "shared_store = example_store\<lparr>
     instanced_inf :=
       [example_row 1 ''Shared.dsc'' ''LibC.inf'' ''LibC'' (Some ''Comp2.inf''),
        example_row 2 ''Shared.dsc'' ''Comp2.inf'' ''Comp2'' None,
        example_row 3 ''Shared.dsc'' ''LibC.inf'' ''LibC'' (Some ''Comp4.inf''),
        example_row 4 ''Shared.dsc'' ''Comp4.inf'' ''Comp4'' None],
     instanced_inf_seq := 4,
     junction :=
       [source_edge 2 ''Comp2.c'', library_edge 2 1, source_edge 4 ''Comp4.c'',
        library_edge 4 1]\<rparr>"

definition absolute_store :: store where
  "absolute_store = example_store\<lparr>
     instanced_inf :=
       [example_row 1 ''Absolute.dsc'' ''LibC.inf'' ''LibC'' (Some ''/ws/Pkg/Comp2.inf''),
        example_row 2 ''Absolute.dsc'' ''Pkg/Comp2.inf'' ''Comp2'' None],
     instanced_inf_seq := 2,
     junction := [source_edge 2 ''Comp2.c'', library_edge 2 1]\<rparr>"

definition shared_entries :: "entry list" where
  "shared_entries =
     [example_entry ''Shared.dsc'' ''LibC.inf'' ''LibC'' ''BASE'' (Some ''Comp2.inf'') [] [],
      example_entry ''Shared.dsc'' ''Comp2.inf'' ''Comp2'' ''DXE_DRIVER'' None
        [''Comp2.c''] [''LibC.inf''],
      example_entry ''Shared.dsc'' ''LibC.inf'' ''LibC'' ''BASE'' (Some ''Comp4.inf'') [] [],
      example_entry ''Shared.dsc'' ''Comp4.inf'' ''Comp4'' ''DXE_DRIVER'' None
        [''Comp4.c''] [''LibC.inf'']]"

definition absolute_entries :: "entry list" where
  "absolute_entries =
     [example_entry ''Absolute.dsc'' ''LibC.inf'' ''LibC'' ''BASE'' (Some ''/ws/Pkg/Comp2.inf'')
        [] [],
      example_entry ''Absolute.dsc'' ''/ws/Pkg/Comp2.inf'' ''Comp2'' ''DXE_DRIVER'' None
        [''Comp2.c''] [''LibC.inf'']]"

text \<open>A generator whose \<^verbatim>\<open>parse\<close> inserts a junction row and then raises.\<close>

definition failing_generator :: TableGenerator where
  "failing_generator =
     \<lparr>create_tables = (\<lambda>db. (None, db)),
      parse = (\<lambda>db. case INSERT_JUNCTION_ROW ''instanced_inf'' (Integer 1) ''source''
                             (Text ''a.c'') db of
                      (Some e, db) \<Rightarrow> (Some e, db)
                    | (None, db) \<Rightarrow> (Some (RuntimeError ''stop''), db))\<rparr>"

definition example_connection :: connection where
  "example_connection = \<lparr>committed = example_store, pending = example_store, closed = False\<rparr>"

text \<open>
  A second workspace, in which a path may be written with a leading \<^verbatim>\<open>./\<close> that
  \<^verbatim>\<open>as_posix\<close> removes. \<^verbatim>\<open>Comp7.inf\<close> needs ClsF and ClsG; their instances \<^verbatim>\<open>LibF.inf\<close> and
  \<^verbatim>\<open>LibG.inf\<close> need ClsC and ClsE, which the platform description maps to \<^verbatim>\<open>LibC.inf\<close> and
  to \<^verbatim>\<open>./LibC.inf\<close>: one file under two spellings. \<^verbatim>\<open>Comp8.inf\<close> needs ClsF and ClsH, whose
  instances \<^verbatim>\<open>LibF.inf\<close> and \<^verbatim>\<open>./LibH.inf\<close> both need ClsC. \<^verbatim>\<open>Comp5.inf\<close> needs ClsD, whose
  instance \<^verbatim>\<open>LibD.inf\<close> needs ClsX, which nothing maps.
\<close>

definition second_inf :: "string \<Rightarrow> error + infp" where
  "second_inf p =
     (if p = ''Comp7.inf'' then Inr (module_view ''Comp7'' ''DXE_DRIVER'' [''ClsF'', ''ClsG''])
      else if p = ''Comp8.inf'' then Inr (module_view ''Comp8'' ''DXE_DRIVER'' [''ClsF'', ''ClsH''])
      else if p = ''Comp5.inf'' then Inr (module_view ''Comp5'' ''DXE_DRIVER'' [''ClsD''])
      else if p = ''LibF.inf'' then Inr (library_view ''LibF'' ''ClsF'' [''ClsC''])
      else if p = ''LibG.inf'' then Inr (library_view ''LibG'' ''ClsG'' [''ClsE''])
      else if p = ''./LibH.inf'' then Inr (library_view ''LibH'' ''ClsH'' [''ClsC''])
      else if p = ''LibC.inf'' \<or> p = ''./LibC.inf'' then Inr (library_view ''LibC'' ''ClsC'' [])
      else if p = ''LibD.inf'' then Inr (library_view ''LibD'' ''ClsD'' [''ClsX''])
      else Inl (ParserError p))"

definition second_library_dict :: "(string \<times> string) list" where
  "second_library_dict =
     [(''common.clsc'', ''LibC.inf''), (''common.clse'', ''./LibC.inf''),
      (''common.clsf'', ''LibF.inf''), (''common.clsg'', ''LibG.inf''),
      (''common.clsh'', ''./LibH.inf''), (''common.clsd'', ''LibD.inf'')]"

definition second_components :: "string \<Rightarrow> (string \<times> string \<times> override_dict) list" where
  "second_components p =
     (if p = ''Dotted.dsc'' then [(''Comp7.inf'', ''ia32'', no_overrides)]
      else if p = ''Diamond.dsc''
        then [(''Comp8.inf'', ''ia32'', no_overrides), (''LibC.inf'', ''ia32'', no_overrides)]
      else if p = ''Nested.dsc'' then [(''Comp5.inf'', ''ia32'', no_overrides)]
      else [])"

definition second_dscp :: "string \<Rightarrow> dscp" where
  "second_dscp p =
     \<lparr>Components = second_components p, ScopedLibraryDict = second_library_dict\<rparr>"

definition second_ext :: collaborators where
  "second_ext =
     \<lparr>as_posix = (\<lambda>p. if take 2 p = ''./'' then drop 2 p else p),
      path_name = (\<lambda>p. p),
      is_absolute = (\<lambda>p. take 1 p = ''/''),
      GetEdk2RelativePathFromAbsolutePath = drop 4,
      InfP_ParseFile = second_inf,
      DscP_ParseFile = (\<lambda>env p. Inr (second_dscp p))\<rparr>"

definition dotted_entries :: "entry list" where
  "dotted_entries =
     [example_entry ''Dotted.dsc'' ''LibC.inf'' ''LibC'' ''BASE'' (Some ''Comp7.inf'') [] [],
      example_entry ''Dotted.dsc'' ''LibF.inf'' ''LibF'' ''BASE'' (Some ''Comp7.inf'') []
        [''LibC.inf''],
      example_entry ''Dotted.dsc'' ''LibC.inf'' ''LibC'' ''BASE'' (Some ''Comp7.inf'') [] [],
      example_entry ''Dotted.dsc'' ''LibG.inf'' ''LibG'' ''BASE'' (Some ''Comp7.inf'') []
        [''LibC.inf''],
      example_entry ''Dotted.dsc'' ''Comp7.inf'' ''Comp7'' ''DXE_DRIVER'' None
        [''Comp7.c''] [''LibF.inf'', ''LibG.inf'']]"

definition second_diamond_rows :: "entry list" where
  "second_diamond_rows =
     [example_entry ''Diamond.dsc'' ''LibC.inf'' ''LibC'' ''BASE'' (Some ''Comp8.inf'') [] [],
      example_entry ''Diamond.dsc'' ''LibF.inf'' ''LibF'' ''BASE'' (Some ''Comp8.inf'') []
        [''LibC.inf''],
      example_entry ''Diamond.dsc'' ''LibH.inf'' ''LibH'' ''BASE'' (Some ''Comp8.inf'') []
        [''LibC.inf''],
      example_entry ''Diamond.dsc'' ''Comp8.inf'' ''Comp8'' ''DXE_DRIVER'' (Some ''Comp8.inf'')
        [''Comp8.c''] [''LibF.inf'', ''LibH.inf'']]"

section \<open>Facts about strings\<close>

lemma split_str_not_Nil: "split_str sep s \<noteq> []"
  by (induction s) (auto split: list.splits)

lemma split_str_no_sep: "sep \<notin> set s \<Longrightarrow> split_str sep s = [s]"
  by (induction s) auto

lemma split_str_append:
  "sep \<notin> set a \<Longrightarrow> split_str sep (a @ sep # b) = a # split_str sep b"
  by (induction a) auto

lemma split_scope:
  assumes "CHR ''.'' \<notin> set arch" and "CHR ''.'' \<notin> set module"
  shows "split_str CHR ''.'' (arch @ ''.'' @ module) = [arch, module]"
  using assms by (simp add: split_str_append split_str_no_sep)

lemma lower_Nil: "lower [] = []"
  by (simp add: lower_def)

lemma lower_Cons: "lower (c # cs) = lower_char c # lower cs"
  by (simp add: lower_def)

lemma upper_Nil: "upper [] = []"
  by (simp add: upper_def)

lemma upper_Cons: "upper (c # cs) = upper_char c # upper cs"
  by (simp add: upper_def)

lemmas string_eval = lower_Nil lower_Cons upper_Nil upper_Cons lower_char_def upper_char_def

section \<open>Facts about the expansion of a component\<close>

declare parse_inf_recursively.simps [simp del]

lemma parse_inf_recursively_Inr:
  assumes "parse_inf_recursively ext self inf_file component ld od scope visited = Inr (rows, v)"
  obtains infp resolved to_return entry where
    "InfP_ParseFile ext inf_file = Inr infp"
    "resolve_libraries self (get_libraries infp (t_arch self)) scope ld od = Inr resolved"
    "visit_libraries ext self (resolved @ filter (\<lambda>null_lib. null_lib \<noteq> inf_file) (NULL od))
       component ld od scope (visited @ [inf_file]) = Inr (to_return, v)"
    "make_entry ext self infp inf_file component scope
       (resolved @ filter (\<lambda>null_lib. null_lib \<noteq> inf_file) (NULL od)) = Inr entry"
    "rows = to_return @ [entry]"
  using assms
  by (auto simp: parse_inf_recursively.simps Let_def split: sum.splits prod.splits)

lemma visit_libraries_Cons_Inr:
  assumes "visit_libraries ext self (library # rest) component ld od scope visited = Inr (rows, v)"
  obtains (skip) "library \<in> set visited"
      "visit_libraries ext self rest component ld od scope visited = Inr (rows, v)"
  | (descend) to_return v1 others where "library \<notin> set visited"
      "parse_inf_recursively ext self library component ld od scope visited = Inr (to_return, v1)"
      "visit_libraries ext self rest component ld od scope v1 = Inr (others, v)"
      "rows = to_return @ others"
  using assms
  by (auto split: if_splits sum.splits prod.splits)

lemma make_entry_fields:
  assumes "make_entry ext self infp inf_file component scope library_instances = Inr entry"
  shows "PATH entry = as_posix ext inf_file"
    and "COMPONENT entry = Some (as_posix ext component)"
    and "DSC entry = path_name ext (t_dsc self)"
    and "LIBRARIES_USED entry = map (as_posix ext) library_instances"
    and "SOURCES_USED entry = map (as_posix ext) (Sources infp)"
  using assms by (auto simp: make_entry_def split: option.splits)

lemma expansion_paths:
  "parse_inf_recursively ext self inf_file component ld od scope visited = Inr (rows, v) \<Longrightarrow>
   \<exists>new. v = visited @ inf_file # new \<and>
         mset (map PATH rows) = mset (map (as_posix ext) (inf_file # new))"
  "visit_libraries ext self libs component ld od scope visited = Inr (rows, v) \<Longrightarrow>
   \<exists>new. v = visited @ new \<and> mset (map PATH rows) = mset (map (as_posix ext) new)"
proof (induction ext self inf_file component ld od scope visited
         and ext self libs component ld od scope visited
       arbitrary: rows v and rows v
       rule: parse_inf_recursively_visit_libraries.induct)
  case (1 ext self inf_file component library_dict override_dict scope visited)
  from "1.prems" show ?case
  proof (rule parse_inf_recursively_Inr)
    fix infp resolved to_return entry
    assume p: "InfP_ParseFile ext inf_file = Inr infp"
      and r: "resolve_libraries self (get_libraries infp (t_arch self)) scope library_dict
                override_dict = Inr resolved"
      and v: "visit_libraries ext self
                (resolved @ filter (\<lambda>null_lib. null_lib \<noteq> inf_file) (NULL override_dict))
                component library_dict override_dict scope (visited @ [inf_file])
              = Inr (to_return, v)"
      and m: "make_entry ext self infp inf_file component scope
                (resolved @ filter (\<lambda>null_lib. null_lib \<noteq> inf_file) (NULL override_dict))
              = Inr entry"
      and rows: "rows = to_return @ [entry]"
    from "1.IH" [OF refl p r refl v] obtain new where
      "v = (visited @ [inf_file]) @ new" and
      "mset (map PATH to_return) = mset (map (as_posix ext) new)"
      by blast
    with rows make_entry_fields(1) [OF m] show ?thesis by simp
  qed
next
  case (2 ext self component library_dict override_dict scope visited)
  then show ?case by simp
next
  case (3 ext self library rest component library_dict override_dict scope visited)
  from "3.prems" show ?case
  proof (cases rule: visit_libraries_Cons_Inr)
    case skip
    from "3.IH"(1) [OF skip] show ?thesis .
  next
    case (descend to_return v1 others)
    from "3.IH"(2) [OF descend(1,2)] obtain new1 where
      n1: "v1 = visited @ library # new1"
          "mset (map PATH to_return) = mset (map (as_posix ext) (library # new1))"
      by blast
    from "3.IH"(3) [OF descend(1,2) refl descend(3)] obtain new2 where
      n2: "v = v1 @ new2" "mset (map PATH others) = mset (map (as_posix ext) new2)"
      by blast
    from n1 n2 descend(4) show ?thesis by simp
  qed
qed


lemma expansion_distinct:
  "parse_inf_recursively ext self inf_file component ld od scope visited = Inr (rows, v) \<Longrightarrow>
   distinct visited \<Longrightarrow> inf_file \<notin> set visited \<Longrightarrow> distinct v"
  "visit_libraries ext self libs component ld od scope visited = Inr (rows, v) \<Longrightarrow>
   distinct visited \<Longrightarrow> distinct v"
proof (induction ext self inf_file component ld od scope visited
         and ext self libs component ld od scope visited
       arbitrary: rows v and rows v
       rule: parse_inf_recursively_visit_libraries.induct)
  case (1 ext self inf_file component library_dict override_dict scope visited)
  from "1.prems"(1) show ?case
  proof (rule parse_inf_recursively_Inr)
    fix infp resolved to_return entry
    assume p: "InfP_ParseFile ext inf_file = Inr infp"
      and r: "resolve_libraries self (get_libraries infp (t_arch self)) scope library_dict
                override_dict = Inr resolved"
      and v: "visit_libraries ext self
                (resolved @ filter (\<lambda>null_lib. null_lib \<noteq> inf_file) (NULL override_dict))
                component library_dict override_dict scope (visited @ [inf_file])
              = Inr (to_return, v)"
    from "1.prems"(2,3) have "distinct (visited @ [inf_file])" by simp
    with "1.IH" [OF refl p r refl v] show ?thesis .
  qed
next
  case (2 ext self component library_dict override_dict scope visited)
  then show ?case by simp
next
  case (3 ext self library rest component library_dict override_dict scope visited)
  from "3.prems"(1) show ?case
  proof (cases rule: visit_libraries_Cons_Inr)
    case skip
    from "3.IH"(1) [OF skip "3.prems"(2)] show ?thesis .
  next
    case (descend to_return v1 others)
    from "3.IH"(2) [OF descend(1,2) "3.prems"(2) descend(1)] have "distinct v1" .
    with "3.IH"(3) [OF descend(1,2) refl descend(3)] show ?thesis .
  qed
qed

lemma expansion_fields:
  "parse_inf_recursively ext self inf_file component ld od scope visited = Inr (rows, v) \<Longrightarrow>
   \<forall>entry \<in> set rows. COMPONENT entry = Some (as_posix ext component) \<and>
                       DSC entry = path_name ext (t_dsc self)"
  "visit_libraries ext self libs component ld od scope visited = Inr (rows, v) \<Longrightarrow>
   \<forall>entry \<in> set rows. COMPONENT entry = Some (as_posix ext component) \<and>
                       DSC entry = path_name ext (t_dsc self)"
proof (induction ext self inf_file component ld od scope visited
         and ext self libs component ld od scope visited
       arbitrary: rows v and rows v
       rule: parse_inf_recursively_visit_libraries.induct)
  case (1 ext self inf_file component library_dict override_dict scope visited)
  from "1.prems"(1) show ?case
  proof (rule parse_inf_recursively_Inr)
    fix infp resolved to_return entry
    assume p: "InfP_ParseFile ext inf_file = Inr infp"
      and r: "resolve_libraries self (get_libraries infp (t_arch self)) scope library_dict
                override_dict = Inr resolved"
      and v: "visit_libraries ext self
                (resolved @ filter (\<lambda>null_lib. null_lib \<noteq> inf_file) (NULL override_dict))
                component library_dict override_dict scope (visited @ [inf_file])
              = Inr (to_return, v)"
      and m: "make_entry ext self infp inf_file component scope
                (resolved @ filter (\<lambda>null_lib. null_lib \<noteq> inf_file) (NULL override_dict))
              = Inr entry"
      and rows: "rows = to_return @ [entry]"
    from "1.IH" [OF refl p r refl v] rows make_entry_fields(2,3) [OF m]
    show ?thesis by auto
  qed
next
  case (2 ext self component library_dict override_dict scope visited)
  then show ?case by simp
next
  case (3 ext self library rest component library_dict override_dict scope visited)
  from "3.prems"(1) show ?case
  proof (cases rule: visit_libraries_Cons_Inr)
    case skip
    from "3.IH"(1) [OF skip] show ?thesis .
  next
    case (descend to_return v1 others)
    from "3.IH"(2) [OF descend(1,2)] "3.IH"(3) [OF descend(1,2) refl descend(3)] descend(4)
    show ?thesis by auto
  qed
qed

lemma expansion_libraries_used:
  "parse_inf_recursively ext self inf_file component ld od scope visited = Inr (rows, v) \<Longrightarrow>
   \<forall>entry \<in> set rows. set (LIBRARIES_USED entry) \<subseteq> as_posix ext ` set v"
  "visit_libraries ext self libs component ld od scope visited = Inr (rows, v) \<Longrightarrow>
   set libs \<subseteq> set v \<and> (\<forall>entry \<in> set rows. set (LIBRARIES_USED entry) \<subseteq> as_posix ext ` set v)"
proof (induction ext self inf_file component ld od scope visited
         and ext self libs component ld od scope visited
       arbitrary: rows v and rows v
       rule: parse_inf_recursively_visit_libraries.induct)
  case (1 ext self inf_file component library_dict override_dict scope visited)
  from "1.prems"(1) show ?case
  proof (rule parse_inf_recursively_Inr)
    fix infp resolved to_return entry
    assume p: "InfP_ParseFile ext inf_file = Inr infp"
      and r: "resolve_libraries self (get_libraries infp (t_arch self)) scope library_dict
                override_dict = Inr resolved"
      and v: "visit_libraries ext self
                (resolved @ filter (\<lambda>null_lib. null_lib \<noteq> inf_file) (NULL override_dict))
                component library_dict override_dict scope (visited @ [inf_file])
              = Inr (to_return, v)"
      and m: "make_entry ext self infp inf_file component scope
                (resolved @ filter (\<lambda>null_lib. null_lib \<noteq> inf_file) (NULL override_dict))
              = Inr entry"
      and rows: "rows = to_return @ [entry]"
    from "1.IH" [OF refl p r refl v] have
      libs: "set (resolved @ filter (\<lambda>null_lib. null_lib \<noteq> inf_file) (NULL override_dict))
               \<subseteq> set v"
      and used: "\<forall>entry \<in> set to_return. set (LIBRARIES_USED entry) \<subseteq> as_posix ext ` set v"
      by blast+
    from libs make_entry_fields(4) [OF m]
    have "set (LIBRARIES_USED entry) \<subseteq> as_posix ext ` set v" by auto
    with used rows show ?thesis by auto
  qed
next
  case (2 ext self component library_dict override_dict scope visited)
  then show ?case by simp
next
  case (3 ext self library rest component library_dict override_dict scope visited)
  from "3.prems"(1) show ?case
  proof (cases rule: visit_libraries_Cons_Inr)
    case skip
    from expansion_paths(2) [OF skip(2)] skip(1) have "library \<in> set v" by auto
    with "3.IH"(1) [OF skip] show ?thesis by simp
  next
    case (descend to_return v1 others)
    from expansion_paths(1) [OF descend(2)] have "library \<in> set v1" by auto
    moreover from expansion_paths(2) [OF descend(3)] have sub: "set v1 \<subseteq> set v" by auto
    ultimately have "library \<in> set v" by blast
    moreover from "3.IH"(2) [OF descend(1,2)] sub
    have "\<forall>entry \<in> set to_return. set (LIBRARIES_USED entry) \<subseteq> as_posix ext ` set v"
      by blast
    moreover note "3.IH"(3) [OF descend(1,2) refl descend(3)] descend(4)
    ultimately show ?thesis by auto
  qed
qed

section \<open>Facts about the store\<close>

lemma same_rows_refl: "same_rows db db"
  by (simp add: same_rows_def)

lemma same_rows_trans: "same_rows a b \<Longrightarrow> same_rows b c \<Longrightarrow> same_rows a c"
  by (auto simp: same_rows_def)

lemma same_rows_GET_ROW_ID: "same_rows db db' \<Longrightarrow> GET_ROW_ID db' = GET_ROW_ID db"
  by (auto simp: same_rows_def GET_ROW_ID_def matching_rows_def fun_eq_iff)

lemma same_rows_junction: "same_rows db db' \<Longrightarrow> set (junction db) \<subseteq> set (junction db')"
  by (auto simp: same_rows_def)

lemma add_instanced_inf_entries_None:
  "add_instanced_inf_entries env inf_entries db = (None, db') \<Longrightarrow>
   db' = db\<lparr>instanced_inf := instanced_inf db @ new_rows env (instanced_inf_seq db) inf_entries,
             instanced_inf_seq := instanced_inf_seq db + length inf_entries\<rparr>"
proof (induction inf_entries arbitrary: db)
  case Nil
  then show ?case by simp
next
  case (Cons entry inf_entries)
  from Cons.prems have "add_instanced_inf_entries env inf_entries
      (db\<lparr>instanced_inf := instanced_inf db @ new_rows env (instanced_inf_seq db) [entry],
          instanced_inf_seq := Suc (instanced_inf_seq db)\<rparr>) = (None, db')"
    by (simp add: INSERT_INSTANCED_INF_ROW_def split: if_splits)
  from Cons.IH [OF this] show ?case by simp
qed

lemma add_instanced_inf_entries_Some:
  "add_instanced_inf_entries env inf_entries db = (Some e, db') \<Longrightarrow>
   ''instanced_inf'' \<notin> tables db \<and> db' = db"
proof (induction inf_entries arbitrary: db)
  case Nil
  then show ?case by simp
next
  case (Cons entry inf_entries)
  show ?case
  proof (cases "''instanced_inf'' \<in> tables db")
    case True
    with Cons.prems have "add_instanced_inf_entries env inf_entries
        (db\<lparr>instanced_inf := instanced_inf db @ new_rows env (instanced_inf_seq db) [entry],
            instanced_inf_seq := Suc (instanced_inf_seq db)\<rparr>) = (Some e, db')"
      by (simp add: INSERT_INSTANCED_INF_ROW_def)
    from Cons.IH [OF this] True show ?thesis by simp
  next
    case False
    with Cons.prems show ?thesis by (simp add: INSERT_INSTANCED_INF_ROW_def)
  qed
qed

lemma INSERT_JUNCTION_ROW_same:
  "INSERT_JUNCTION_ROW t1 k1 t2 k2 db = (r, db') \<Longrightarrow> same_rows db db'"
  by (auto simp: INSERT_JUNCTION_ROW_def same_rows_def split: if_splits)

lemma INSERT_JUNCTION_ROW_None:
  "INSERT_JUNCTION_ROW t1 k1 t2 k2 db = (None, db') \<Longrightarrow>
   \<lparr>table1 = t1, key1 = k1, table2 = t2, key2 = k2\<rparr> \<in> set (junction db')"
  by (auto simp: INSERT_JUNCTION_ROW_def split: if_splits)

lemma add_source_edges_same:
  "add_source_edges inf_id sources db = (r, db') \<Longrightarrow> same_rows db db'"
proof (induction sources arbitrary: db)
  case Nil
  then show ?case by (simp add: same_rows_refl)
next
  case (Cons source sources)
  then show ?case
    by (auto split: prod.splits option.splits
             dest!: INSERT_JUNCTION_ROW_same intro: same_rows_trans)
qed

lemma add_library_edges_same:
  "add_library_edges env dsc inf_id libraries db = (r, db') \<Longrightarrow> same_rows db db'"
proof (induction libraries arbitrary: db)
  case Nil
  then show ?case by (simp add: same_rows_refl)
next
  case (Cons library libraries)
  then show ?case
    by (auto split: sum.splits prod.splits option.splits
             dest!: INSERT_JUNCTION_ROW_same intro: same_rows_trans same_rows_refl)
qed

lemma add_junction_entries_same:
  "add_junction_entries env inf_entries db = (r, db') \<Longrightarrow> same_rows db db'"
proof (induction inf_entries arbitrary: db)
  case Nil
  then show ?case by (simp add: same_rows_refl)
next
  case (Cons entry inf_entries)
  then show ?case
    by (auto split: sum.splits prod.splits option.splits
             dest!: add_source_edges_same add_library_edges_same
             intro: same_rows_trans same_rows_refl)
qed

lemma add_library_edges_None:
  "add_library_edges env dsc inf_id libraries db = (None, db') \<Longrightarrow>
   \<forall>library \<in> set libraries. \<exists>used_inf_id.
      GET_ROW_ID db env library dsc = Inr used_inf_id \<and>
      library_edge inf_id used_inf_id \<in> set (junction db')"
proof (induction libraries arbitrary: db)
  case Nil
  then show ?case by simp
next
  case (Cons library libraries)
  from Cons.prems obtain used_inf_id db1 where
    g: "GET_ROW_ID db env library dsc = Inr used_inf_id" and
    i: "INSERT_JUNCTION_ROW ''instanced_inf'' (Integer inf_id) ''instanced_inf''
          (Integer used_inf_id) db = (None, db1)" and
    r: "add_library_edges env dsc inf_id libraries db1 = (None, db')"
    by (auto split: sum.splits prod.splits option.splits)
  from INSERT_JUNCTION_ROW_None [OF i]
  have "library_edge inf_id used_inf_id \<in> set (junction db1)" by (simp add: library_edge_def)
  with same_rows_junction [OF add_library_edges_same [OF r]]
  have here: "library_edge inf_id used_inf_id \<in> set (junction db')" by blast
  from same_rows_GET_ROW_ID [OF INSERT_JUNCTION_ROW_same [OF i]] Cons.IH [OF r]
  have "\<forall>library \<in> set libraries. \<exists>used_inf_id.
      GET_ROW_ID db env library dsc = Inr used_inf_id \<and>
      library_edge inf_id used_inf_id \<in> set (junction db')" by simp
  with g here show ?case by auto
qed

lemma add_junction_entries_None:
  "add_junction_entries env inf_entries db = (None, db') \<Longrightarrow>
   \<forall>entry \<in> set inf_entries. \<exists>inf_id.
      GET_ROW_ID db env (PATH entry) (DSC entry) = Inr inf_id \<and>
      (\<forall>library \<in> set (LIBRARIES_USED entry). \<exists>used_inf_id.
         GET_ROW_ID db env library (DSC entry) = Inr used_inf_id \<and>
         library_edge inf_id used_inf_id \<in> set (junction db'))"
proof (induction inf_entries arbitrary: db)
  case Nil
  then show ?case by simp
next
  case (Cons entry inf_entries)
  from Cons.prems obtain inf_id db1 db2 where
    g: "GET_ROW_ID db env (PATH entry) (DSC entry) = Inr inf_id" and
    s: "add_source_edges inf_id (SOURCES_USED entry) db = (None, db1)" and
    l: "add_library_edges env (DSC entry) inf_id (LIBRARIES_USED entry) db1 = (None, db2)" and
    r: "add_junction_entries env inf_entries db2 = (None, db')"
    by (auto split: sum.splits prod.splits option.splits)
  have same1: "same_rows db db1" by (rule add_source_edges_same [OF s])
  have same2: "same_rows db1 db2" by (rule add_library_edges_same [OF l])
  have same3: "same_rows db2 db'" by (rule add_junction_entries_same [OF r])
  from add_library_edges_None [OF l] same_rows_GET_ROW_ID [OF same1]
    same_rows_junction [OF same3]
  have "\<forall>library \<in> set (LIBRARIES_USED entry). \<exists>used_inf_id.
         GET_ROW_ID db env library (DSC entry) = Inr used_inf_id \<and>
         library_edge inf_id used_inf_id \<in> set (junction db')"
    by (metis subsetD)
  moreover from Cons.IH [OF r] same_rows_GET_ROW_ID [OF same_rows_trans [OF same1 same2]]
  have "\<forall>entry \<in> set inf_entries. \<exists>inf_id.
      GET_ROW_ID db env (PATH entry) (DSC entry) = Inr inf_id \<and>
      (\<forall>library \<in> set (LIBRARIES_USED entry). \<exists>used_inf_id.
         GET_ROW_ID db env library (DSC entry) = Inr used_inf_id \<and>
         library_edge inf_id used_inf_id \<in> set (junction db'))"
    by simp
  ultimately show ?case using g by auto
qed

text \<open>A run of parse that did not raise, taken apart.\<close>

lemma InstancedInfTable_parse_None:
  assumes "InstancedInfTable_parse ext self db = (None, db')"
  obtains dscp inf_entries env db1 where
    "DscP_ParseFile ext (t_env self) (t_dsc self) = Inr dscp"
    "build_inf_table ext self dscp = Inr inf_entries"
    "SELECT_LATEST_ENVIRONMENT db = Inr env"
    "add_instanced_inf_entries env (map (relativize ext) inf_entries) db = (None, db1)"
    "add_junction_entries env (map (relativize ext) inf_entries) db1 = (None, db')"
  using assms unfolding InstancedInfTable_parse_def
  by (auto simp: Let_def split: sum.splits prod.splits option.splits)

section \<open>The examples, evaluated\<close>

lemmas example_defs =
  example_ext_def example_inf_def example_table_def example_library_dict_def
  no_overrides_def module_view_def library_view_def example_entry_def
  example_components_def example_dscp_def example_store_def

lemmas expansion_eval =
  parse_inf_recursively.simps lib_to_instance_def make_entry_def string_eval


lemma diamond_table:
  "build_inf_table example_ext example_table (example_dscp ''Platform.dsc'') =
   Inr [example_entry ''Platform.dsc'' ''LibC.inf'' ''LibC'' ''BASE'' (Some ''Comp.inf'') [] [],
         example_entry ''Platform.dsc'' ''LibA.inf'' ''LibA'' ''BASE'' (Some ''Comp.inf'') []
           [''LibC.inf''],
         example_entry ''Platform.dsc'' ''LibB.inf'' ''LibB'' ''BASE'' (Some ''Comp.inf'') []
           [''LibC.inf''],
         example_entry ''Platform.dsc'' ''Comp.inf'' ''Comp'' ''DXE_DRIVER'' None
           [''Comp.c''] [''LibA.inf'', ''LibB.inf'']]"
  by (simp add: build_inf_table_def move_entry_def expansion_eval example_defs)

lemma example_ext_sel:
  "as_posix example_ext p = p"
  "path_name example_ext p = p"
  "is_absolute example_ext p = (take 1 p = ''/'')"
  "GetEdk2RelativePathFromAbsolutePath example_ext p = drop 4 p"
  "InfP_ParseFile example_ext = example_inf"
  "DscP_ParseFile example_ext env q = Inr (example_dscp q)"
  by (simp_all add: example_ext_def)

lemma example_table_sel:
  "t_dsc example_table = ''Platform.dsc''"
  "t_arch example_table = [''IA32'', ''X64'']"
  by (simp_all add: example_table_def)

lemmas store_eval =
  InstancedInfTable_parse_def relativize_def SELECT_LATEST_ENVIRONMENT_def
  INSERT_INSTANCED_INF_ROW_def INSERT_JUNCTION_ROW_def GET_ROW_ID_def matching_rows_def
  example_ext_sel example_table_sel example_entry_def example_store_def


section \<open>The priority chain\<close>

text \<open>
  C1. In a scope \<open>ARCH.MODULETYPE\<close>, \<^verbatim>\<open>_lib_to_instance\<close> answers with the first of these
  that exists: the component's override for the class, then the scoped library dictionary at
  \<open>ARCH.MODULETYPE.class\<close>, \<open>common.MODULETYPE.class\<close>, \<open>ARCH.class\<close> and \<open>common.class\<close>; a
  missing entry hands over to the next key of that order.
\<close>

theorem lib_to_instance_priority:
  assumes "CHR ''.'' \<notin> set arch" and "CHR ''.'' \<notin> set module" and "cls \<noteq> ''NULL''"
  shows "lib_to_instance self cls (arch @ ''.'' @ module) ld od =
     (case map_of (classes od) cls of
        Some inst \<Rightarrow> Inr inst
      | None \<Rightarrow>
     (case map_of ld (arch @ ''.'' @ module @ ''.'' @ cls) of
        Some inst \<Rightarrow> Inr inst
      | None \<Rightarrow>
     (case map_of ld (''common.'' @ module @ ''.'' @ cls) of
        Some inst \<Rightarrow> Inr inst
      | None \<Rightarrow>
     (case map_of ld (arch @ ''.'' @ cls) of
        Some inst \<Rightarrow> Inr inst
      | None \<Rightarrow>
     (case map_of ld (''common.'' @ cls) of
        Some inst \<Rightarrow> Inr inst
      | None \<Rightarrow>
          Inl (RuntimeError (cannot_find self cls (arch @ ''.'' @ module))))))))"
  unfolding lib_to_instance_def split_scope [OF assms(1,2)] by simp

theorem lib_to_instance_priority_witness:
  "CHR ''.'' \<notin> set ''ia32'' \<and> CHR ''.'' \<notin> set ''peim'' \<and> ''testcls'' \<noteq> ''NULL'' \<and>
   lib_to_instance example_table ''testcls'' ''ia32.peim''
     [(''common.testcls'', ''Lib1.inf''), (''ia32.testcls'', ''Lib2.inf''),
      (''common.peim.testcls'', ''Lib4.inf''), (''ia32.peim.testcls'', ''Lib3.inf'')]
     \<lparr>classes = [], NULL = []\<rparr> = Inr ''Lib3.inf'' \<and>
   lib_to_instance example_table ''testcls'' ''ia32.peim''
     [(''common.testcls'', ''Lib1.inf''), (''ia32.testcls'', ''Lib2.inf''),
      (''common.peim.testcls'', ''Lib4.inf'')]
     \<lparr>classes = [], NULL = []\<rparr> = Inr ''Lib4.inf'' \<and>
   lib_to_instance example_table ''testcls'' ''ia32.peim''
     [(''common.testcls'', ''Lib1.inf''), (''ia32.testcls'', ''Lib2.inf'')]
     \<lparr>classes = [], NULL = []\<rparr> = Inr ''Lib2.inf'' \<and>
   lib_to_instance example_table ''testcls'' ''ia32.peim''
     [(''common.testcls'', ''Lib1.inf'')]
     \<lparr>classes = [], NULL = []\<rparr> = Inr ''Lib1.inf'' \<and>
   lib_to_instance example_table ''testcls'' ''ia32.peim''
     [(''common.testcls'', ''Lib1.inf''), (''ia32.peim.testcls'', ''Lib3.inf'')]
     \<lparr>classes = [(''testcls'', ''Lib5.inf'')], NULL = []\<rparr> = Inr ''Lib5.inf''"
  using
    lib_to_instance_priority [of "''ia32''" "''peim''" "''testcls''" example_table
      "[(''common.testcls'', ''Lib1.inf''), (''ia32.testcls'', ''Lib2.inf''),
        (''common.peim.testcls'', ''Lib4.inf''), (''ia32.peim.testcls'', ''Lib3.inf'')]"
      "\<lparr>classes = [], NULL = []\<rparr>"]
    lib_to_instance_priority [of "''ia32''" "''peim''" "''testcls''" example_table
      "[(''common.testcls'', ''Lib1.inf''), (''ia32.testcls'', ''Lib2.inf''),
        (''common.peim.testcls'', ''Lib4.inf'')]"
      "\<lparr>classes = [], NULL = []\<rparr>"]
    lib_to_instance_priority [of "''ia32''" "''peim''" "''testcls''" example_table
      "[(''common.testcls'', ''Lib1.inf''), (''ia32.testcls'', ''Lib2.inf'')]"
      "\<lparr>classes = [], NULL = []\<rparr>"]
    lib_to_instance_priority [of "''ia32''" "''peim''" "''testcls''" example_table
      "[(''common.testcls'', ''Lib1.inf'')]"
      "\<lparr>classes = [], NULL = []\<rparr>"]
    lib_to_instance_priority [of "''ia32''" "''peim''" "''testcls''" example_table
      "[(''common.testcls'', ''Lib1.inf''), (''ia32.peim.testcls'', ''Lib3.inf'')]"
      "\<lparr>classes = [(''testcls'', ''Lib5.inf'')], NULL = []\<rparr>"]
  by simp

section \<open>Construction\<close>

text \<open>
  C8. Constructing the table from an environment mapping without \<^verbatim>\<open>ACTIVE_PLATFORM\<close>,
  \<^verbatim>\<open>TARGET_ARCH\<close> or \<^verbatim>\<open>TARGET\<close> raises \<^verbatim>\<open>KeyError\<close> for the first of them that is missing, in
  the constructor, before there is a table to parse with; with the three present the
  construction succeeds whether \<^verbatim>\<open>FLASH_DEFINITION\<close> is there or not, and a missing one
  reads as the empty string.
\<close>

theorem init_required_keys:
  "(env ''ACTIVE_PLATFORM'' = None \<longrightarrow> init env = Inl (KeyError ''ACTIVE_PLATFORM'')) \<and>
   (env ''ACTIVE_PLATFORM'' \<noteq> None \<and> env ''TARGET_ARCH'' = None \<longrightarrow>
      init env = Inl (KeyError ''TARGET_ARCH'')) \<and>
   (env ''ACTIVE_PLATFORM'' \<noteq> None \<and> env ''TARGET_ARCH'' \<noteq> None \<and> env ''TARGET'' = None \<longrightarrow>
      init env = Inl (KeyError ''TARGET'')) \<and>
   (env ''ACTIVE_PLATFORM'' \<noteq> None \<and> env ''TARGET_ARCH'' \<noteq> None \<and> env ''TARGET'' \<noteq> None \<longrightarrow>
      (\<exists>self. init env = Inr self \<and>
         t_fdf self = (case env ''FLASH_DEFINITION'' of None \<Rightarrow> '''' | Some f \<Rightarrow> f)))"
  by (auto simp: init_def Let_def split: option.splits)

theorem init_required_keys_witness:
  "init [''ACTIVE_PLATFORM'' \<mapsto> ''Test.dsc'', ''TARGET_ARCH'' \<mapsto> ''IA32'']
     = Inl (KeyError ''TARGET'') \<and>
   init [''TARGET_ARCH'' \<mapsto> ''IA32'', ''TARGET'' \<mapsto> ''DEBUG'']
     = Inl (KeyError ''ACTIVE_PLATFORM'') \<and>
   init [''ACTIVE_PLATFORM'' \<mapsto> ''Test.dsc'', ''TARGET'' \<mapsto> ''DEBUG'']
     = Inl (KeyError ''TARGET_ARCH'') \<and>
   (\<exists>self. init [''ACTIVE_PLATFORM'' \<mapsto> ''Test.dsc'', ''TARGET_ARCH'' \<mapsto> ''IA32'',
                  ''TARGET'' \<mapsto> ''DEBUG''] = Inr self \<and> t_fdf self = '''')"
  using
    init_required_keys [of "[''ACTIVE_PLATFORM'' \<mapsto> ''Test.dsc'', ''TARGET_ARCH'' \<mapsto> ''IA32'']"]
    init_required_keys [of "[''TARGET_ARCH'' \<mapsto> ''IA32'', ''TARGET'' \<mapsto> ''DEBUG'']"]
    init_required_keys [of "[''ACTIVE_PLATFORM'' \<mapsto> ''Test.dsc'', ''TARGET'' \<mapsto> ''DEBUG'']"]
    init_required_keys [of "[''ACTIVE_PLATFORM'' \<mapsto> ''Test.dsc'', ''TARGET_ARCH'' \<mapsto> ''IA32'',
                  ''TARGET'' \<mapsto> ''DEBUG'']"]
  by simp

section \<open>Deduplication within a component\<close>

lemma length_filter_count:
  "length (filter (\<lambda>e. f e = x) xs) = count (mset (map f xs)) x"
  by (induction xs) auto

lemma expansion_one_row:
  assumes run: "parse_inf_recursively ext self inf_file component ld od scope [] = Inr (rows, v)"
    and inj: "inj_on (as_posix ext) (set v)"
    and n: "n \<in> set v"
  shows "length (filter (\<lambda>entry. PATH entry = as_posix ext n) rows) = 1"
proof -
  from expansion_paths(1) [OF run]
  have paths: "mset (map PATH rows) = mset (map (as_posix ext) v)" by auto
  from expansion_distinct(1) [OF run] have "distinct v" by simp
  with inj have "distinct (map (as_posix ext) v)" by (simp add: distinct_map)
  moreover from n have "as_posix ext n \<in> set (map (as_posix ext) v)" by simp
  ultimately have "count (mset (map (as_posix ext) v)) (as_posix ext n) = 1"
    by (simp add: distinct_count_atmost_1)
  with paths show ?thesis by (simp add: length_filter_count)
qed

section \<open>Components and their libraries\<close>

lemma component_entries_Cons_Inr:
  assumes "component_entries ext self ld ((inf_file, scope, overrides) # rest) = Inr entries"
  obtains (library) "is_library ext (inf_file, scope, overrides)"
      "component_entries ext self ld rest = Inr entries"
  | (component) scope' rows v others where
      "\<not> is_library ext (inf_file, scope, overrides)"
      "parse_inf_recursively ext self inf_file inf_file ld overrides scope' [] = Inr (rows, v)"
      "component_entries ext self ld rest = Inr others"
      "entries = rows @ others"
  using assms
  by (auto simp: is_library_def Let_def split: sum.splits if_splits prod.splits)

lemma component_entries_fields:
  "component_entries ext self ld comps = Inr entries \<Longrightarrow>
   \<forall>entry \<in> set entries. DSC entry = path_name ext (t_dsc self) \<and>
      (\<exists>component \<in> set comps. \<not> is_library ext component \<and>
         COMPONENT entry = Some (as_posix ext (fst component)))"
proof (induction comps arbitrary: entries)
  case Nil
  then show ?case by simp
next
  case (Cons comp comps)
  obtain inf_file scope overrides where comp: "comp = (inf_file, scope, overrides)"
    by (cases comp)
  from Cons.prems [unfolded comp] show ?case
  proof (cases rule: component_entries_Cons_Inr)
    case library
    from Cons.IH [OF library(2)] show ?thesis by auto
  next
    case (component scope' rows v others)
    from expansion_fields(1) [OF component(2)] Cons.IH [OF component(3)] component(1,4)
    show ?thesis unfolding comp by (auto simp: Ball_def)
  qed
qed

lemma move_entry_fields:
  "PATH (move_entry entry) = PATH entry"
  "DSC (move_entry entry) = DSC entry"
  "LIBRARIES_USED (move_entry entry) = LIBRARIES_USED entry"
  "COMPONENT (move_entry entry) \<noteq> Some (PATH (move_entry entry))"
  "COMPONENT (move_entry entry) = None \<longleftrightarrow>
     COMPONENT entry = None \<or> Some (PATH entry) = COMPONENT entry"
  "COMPONENT (move_entry entry) = None \<or> COMPONENT (move_entry entry) = COMPONENT entry"
  by (auto simp: move_entry_def)

lemma build_inf_table_Inr:
  assumes "build_inf_table ext self dscp = Inr inf_entries"
  obtains entries where
    "component_entries ext self (ScopedLibraryDict dscp) (Components dscp) = Inr entries"
    "inf_entries = map move_entry entries"
  using assms by (auto simp: build_inf_table_def split: sum.splits)

lemma mixed_table:
  "build_inf_table example_ext (example_table_for ''Mixed.dsc'') (example_dscp ''Mixed.dsc'')
     = Inr mixed_entries"
  by (simp add: build_inf_table_def move_entry_def expansion_eval example_defs
                example_table_for_def mixed_entries_def Let_def)

section \<open>More examples, evaluated\<close>

lemmas table_eval =
  build_inf_table_def move_entry_def expansion_eval example_defs example_table_for_def Let_def

lemma example_table_for_sel:
  "t_dsc (example_table_for p) = p"
  "t_arch (example_table_for p) = [''IA32'', ''X64'']"
  by (simp_all add: example_table_for_def example_table_def)

lemmas parse_eval =
  store_eval example_table_for_sel example_row_def source_edge_def library_edge_def

lemma diamond_parse:
  "InstancedInfTable_parse example_ext example_table example_store = (None, diamond_store)"
  by (simp add: diamond_table parse_eval diamond_store_def)

lemma shared_table:
  "build_inf_table example_ext (example_table_for ''Shared.dsc'') (example_dscp ''Shared.dsc'')
     = Inr shared_entries"
  by (simp add: table_eval shared_entries_def)

lemma shared_parse:
  "InstancedInfTable_parse example_ext (example_table_for ''Shared.dsc'') example_store
     = (None, shared_store)"
  by (simp add: shared_table parse_eval shared_entries_def shared_store_def)

lemma absolute_table:
  "build_inf_table example_ext (example_table_for ''Absolute.dsc'')
     (example_dscp ''Absolute.dsc'') = Inr absolute_entries"
  by (simp add: table_eval absolute_entries_def)

lemma absolute_parse:
  "InstancedInfTable_parse example_ext (example_table_for ''Absolute.dsc'') example_store
     = (None, absolute_store)"
  by (simp add: absolute_table parse_eval absolute_entries_def absolute_store_def)

section \<open>Entries and the rows and edges made from them\<close>

lemma expanded_mono:
  "expanded ext self ld od scope rows n \<Longrightarrow> set rows \<subseteq> set rows' \<Longrightarrow>
   expanded ext self ld od scope rows' n"
  unfolding expanded_def by blast

lemma expansion_expanded:
  "parse_inf_recursively ext self inf_file component ld od scope visited = Inr (rows, v) \<Longrightarrow>
   \<forall>n \<in> set v - set visited. expanded ext self ld od scope rows n"
  "visit_libraries ext self libs component ld od scope visited = Inr (rows, v) \<Longrightarrow>
   \<forall>n \<in> set v - set visited. expanded ext self ld od scope rows n"
proof (induction ext self inf_file component ld od scope visited
         and ext self libs component ld od scope visited
       arbitrary: rows v and rows v
       rule: parse_inf_recursively_visit_libraries.induct)
  case (1 ext self inf_file component library_dict override_dict scope visited)
  from "1.prems"(1) show ?case
  proof (rule parse_inf_recursively_Inr)
    fix infp resolved to_return entry
    assume p: "InfP_ParseFile ext inf_file = Inr infp"
      and r: "resolve_libraries self (get_libraries infp (t_arch self)) scope library_dict
                override_dict = Inr resolved"
      and v: "visit_libraries ext self
                (resolved @ filter (\<lambda>null_lib. null_lib \<noteq> inf_file) (NULL override_dict))
                component library_dict override_dict scope (visited @ [inf_file])
              = Inr (to_return, v)"
      and m: "make_entry ext self infp inf_file component scope
                (resolved @ filter (\<lambda>null_lib. null_lib \<noteq> inf_file) (NULL override_dict))
              = Inr entry"
      and rows: "rows = to_return @ [entry]"
    from p r rows make_entry_fields(1,4) [OF m]
    have here: "expanded ext self library_dict override_dict scope rows inf_file"
      unfolding expanded_def by auto
    from "1.IH" [OF refl p r refl v] rows
    have "\<forall>n \<in> set v - set (visited @ [inf_file]).
            expanded ext self library_dict override_dict scope rows n"
      by (auto intro: expanded_mono)
    with here show ?thesis by auto
  qed
next
  case (2 ext self component library_dict override_dict scope visited)
  then show ?case by simp
next
  case (3 ext self library rest component library_dict override_dict scope visited)
  from "3.prems"(1) show ?case
  proof (cases rule: visit_libraries_Cons_Inr)
    case skip
    from "3.IH"(1) [OF skip] show ?thesis .
  next
    case (descend to_return v1 others)
    from "3.IH"(2) [OF descend(1,2)] descend(4)
    have "\<forall>n \<in> set v1 - set visited.
            expanded ext self library_dict override_dict scope rows n"
      by (auto intro: expanded_mono)
    moreover from "3.IH"(3) [OF descend(1,2) refl descend(3)] descend(4)
    have "\<forall>n \<in> set v - set v1.
            expanded ext self library_dict override_dict scope rows n"
      by (auto intro: expanded_mono)
    ultimately show ?thesis by blast
  qed
qed

lemma relativize_fields:
  "DSC (relativize ext entry) = DSC entry"
  "COMPONENT (relativize ext entry) = COMPONENT entry"
  "LIBRARIES_USED (relativize ext entry) = LIBRARIES_USED entry"
  "PATH (relativize ext entry) =
     (if is_absolute ext (PATH entry)
      then GetEdk2RelativePathFromAbsolutePath ext (PATH entry) else PATH entry)"
  by (simp_all add: relativize_def)

lemma build_inf_table_fields:
  assumes "build_inf_table ext self dscp = Inr inf_entries"
  shows "\<forall>entry \<in> set inf_entries. DSC entry = path_name ext (t_dsc self) \<and>
     (COMPONENT entry = None \<or>
      (\<exists>component \<in> set (Components dscp). \<not> is_library ext component \<and>
         COMPONENT entry = Some (as_posix ext (fst component))))"
proof -
  from assms obtain entries where
    raw: "component_entries ext self (ScopedLibraryDict dscp) (Components dscp) = Inr entries"
    and moved: "inf_entries = map move_entry entries"
    by (rule build_inf_table_Inr)
  show ?thesis
  proof
    fix entry assume "entry \<in> set inf_entries"
    with moved obtain e where e: "e \<in> set entries" and entry: "entry = move_entry e" by auto
    from component_entries_fields [OF raw] e
    have "DSC e = path_name ext (t_dsc self)" and
      "\<exists>component \<in> set (Components dscp). \<not> is_library ext component \<and>
         COMPONENT e = Some (as_posix ext (fst component))"
      by blast+
    with move_entry_fields(2,6) [of e] entry
    show "DSC entry = path_name ext (t_dsc self) \<and>
     (COMPONENT entry = None \<or>
      (\<exists>component \<in> set (Components dscp). \<not> is_library ext component \<and>
         COMPONENT entry = Some (as_posix ext (fst component))))"
      by auto
  qed
qed

lemma new_rows_columns:
  "map row_path (new_rows env seq inf_entries) = map PATH inf_entries"
  "map row_component (new_rows env seq inf_entries) = map COMPONENT inf_entries"
  "map row_dsc (new_rows env seq inf_entries) = map DSC inf_entries"
  "\<forall>row \<in> set (new_rows env seq inf_entries). row_env row = env"
  by (induction inf_entries arbitrary: seq) auto

lemma InstancedInfTable_parse_rows:
  assumes "InstancedInfTable_parse ext self db = (None, db')"
  obtains dscp inf_entries env where
    "DscP_ParseFile ext (t_env self) (t_dsc self) = Inr dscp"
    "build_inf_table ext self dscp = Inr inf_entries"
    "SELECT_LATEST_ENVIRONMENT db = Inr env"
    "instanced_inf db' =
       instanced_inf db @ new_rows env (instanced_inf_seq db) (map (relativize ext) inf_entries)"
    "\<forall>entry \<in> set (map (relativize ext) inf_entries). \<exists>inf_id.
       GET_ROW_ID db' env (PATH entry) (DSC entry) = Inr inf_id \<and>
       (\<forall>library \<in> set (LIBRARIES_USED entry). \<exists>used_inf_id.
          GET_ROW_ID db' env library (DSC entry) = Inr used_inf_id \<and>
          library_edge inf_id used_inf_id \<in> set (junction db'))"
proof -
  from assms obtain dscp inf_entries env db1 where
    d: "DscP_ParseFile ext (t_env self) (t_dsc self) = Inr dscp" and
    b: "build_inf_table ext self dscp = Inr inf_entries" and
    s: "SELECT_LATEST_ENVIRONMENT db = Inr env" and
    i: "add_instanced_inf_entries env (map (relativize ext) inf_entries) db = (None, db1)" and
    j: "add_junction_entries env (map (relativize ext) inf_entries) db1 = (None, db')"
    by (rule InstancedInfTable_parse_None)
  have same: "same_rows db1 db'" by (rule add_junction_entries_same [OF j])
  from add_instanced_inf_entries_None [OF i] same
  have rows: "instanced_inf db' =
       instanced_inf db @ new_rows env (instanced_inf_seq db) (map (relativize ext) inf_entries)"
    by (simp add: same_rows_def)
  from add_junction_entries_None [OF j] same_rows_GET_ROW_ID [OF same]
  have "\<forall>entry \<in> set (map (relativize ext) inf_entries). \<exists>inf_id.
       GET_ROW_ID db' env (PATH entry) (DSC entry) = Inr inf_id \<and>
       (\<forall>library \<in> set (LIBRARIES_USED entry). \<exists>used_inf_id.
          GET_ROW_ID db' env library (DSC entry) = Inr used_inf_id \<and>
          library_edge inf_id used_inf_id \<in> set (junction db'))"
    by simp
  with d b s rows show ?thesis by (rule that)
qed

section \<open>Relativization\<close>

text \<open>
  C10. When \<^verbatim>\<open>parse\<close> returns, the rows it has inserted are the entries of
  \<^verbatim>\<open>_build_inf_table\<close> in their order. The path column holds the entry's path, rewritten
  by \<^verbatim>\<open>GetEdk2RelativePathFromAbsolutePath\<close> when it is absolute; the component column holds
  the entry's component as \<^verbatim>\<open>_build_inf_table\<close> left it, which is \<^verbatim>\<open>None\<close> or the posix form
  of a declared component's path, absolute or not.
\<close>

theorem relativization_only_path:
  assumes "InstancedInfTable_parse ext self db = (None, db')"
  shows "\<exists>dscp inf_entries.
     DscP_ParseFile ext (t_env self) (t_dsc self) = Inr dscp \<and>
     build_inf_table ext self dscp = Inr inf_entries \<and>
     map row_path (drop (length (instanced_inf db)) (instanced_inf db')) =
       map (\<lambda>entry. if is_absolute ext (PATH entry)
                     then GetEdk2RelativePathFromAbsolutePath ext (PATH entry)
                     else PATH entry) inf_entries \<and>
     map row_component (drop (length (instanced_inf db)) (instanced_inf db')) =
       map COMPONENT inf_entries \<and>
     (\<forall>entry \<in> set inf_entries. COMPONENT entry = None \<or>
        (\<exists>component \<in> set (Components dscp).
           COMPONENT entry = Some (as_posix ext (fst component))))"
proof -
  from assms obtain dscp inf_entries env where
    d: "DscP_ParseFile ext (t_env self) (t_dsc self) = Inr dscp" and
    b: "build_inf_table ext self dscp = Inr inf_entries" and
    rows: "instanced_inf db' =
       instanced_inf db @ new_rows env (instanced_inf_seq db) (map (relativize ext) inf_entries)"
    by (rule InstancedInfTable_parse_rows)
  from rows have new: "drop (length (instanced_inf db)) (instanced_inf db') =
      new_rows env (instanced_inf_seq db) (map (relativize ext) inf_entries)"
    by simp
  have "map row_path (drop (length (instanced_inf db)) (instanced_inf db')) =
       map (\<lambda>entry. if is_absolute ext (PATH entry)
                     then GetEdk2RelativePathFromAbsolutePath ext (PATH entry)
                     else PATH entry) inf_entries"
    unfolding new new_rows_columns by (simp add: relativize_fields(4) o_def)
  moreover have "map row_component (drop (length (instanced_inf db)) (instanced_inf db')) =
       map COMPONENT inf_entries"
    unfolding new new_rows_columns by (simp add: relativize_fields(2) o_def)
  moreover from build_inf_table_fields [OF b]
  have "\<forall>entry \<in> set inf_entries. COMPONENT entry = None \<or>
        (\<exists>component \<in> set (Components dscp).
           COMPONENT entry = Some (as_posix ext (fst component)))"
    by blast
  ultimately show ?thesis using d b by blast
qed

theorem relativization_only_path_witness:
  "InstancedInfTable_parse example_ext (example_table_for ''Absolute.dsc'') example_store
     = (None, absolute_store) \<and>
   Components (example_dscp ''Absolute.dsc'') = [(''/ws/Pkg/Comp2.inf'', ''ia32'', no_overrides)] \<and>
   is_absolute example_ext ''/ws/Pkg/Comp2.inf'' \<and>
   map row_path (instanced_inf absolute_store) = [''LibC.inf'', ''Pkg/Comp2.inf''] \<and>
   map row_component (instanced_inf absolute_store) = [Some ''/ws/Pkg/Comp2.inf'', None]"
proof -
  from relativization_only_path [OF absolute_parse]
  obtain dscp inf_entries where
    d: "DscP_ParseFile example_ext (t_env (example_table_for ''Absolute.dsc''))
          (t_dsc (example_table_for ''Absolute.dsc'')) = Inr dscp" and
    b: "build_inf_table example_ext (example_table_for ''Absolute.dsc'') dscp = Inr inf_entries" and
    p: "map row_path (drop (length (instanced_inf example_store)) (instanced_inf absolute_store)) =
       map (\<lambda>entry. if is_absolute example_ext (PATH entry)
                     then GetEdk2RelativePathFromAbsolutePath example_ext (PATH entry)
                     else PATH entry) inf_entries" and
    c: "map row_component (drop (length (instanced_inf example_store))
          (instanced_inf absolute_store)) = map COMPONENT inf_entries"
    by blast
  from d have "dscp = example_dscp ''Absolute.dsc''"
    by (simp add: example_ext_sel example_table_for_sel)
  with b absolute_table have "inf_entries = absolute_entries" by simp
  with p c have
    "map row_path (instanced_inf absolute_store) = [''LibC.inf'', ''Pkg/Comp2.inf'']" and
    "map row_component (instanced_inf absolute_store) = [Some ''/ws/Pkg/Comp2.inf'', None]"
    by (simp_all add: example_store_def absolute_entries_def example_entry_def example_ext_sel)
  moreover have "Components (example_dscp ''Absolute.dsc'')
      = [(''/ws/Pkg/Comp2.inf'', ''ia32'', no_overrides)]"
    by (simp add: example_dscp_def example_components_def)
  moreover have "is_absolute example_ext ''/ws/Pkg/Comp2.inf''"
    by (simp add: example_ext_sel)
  ultimately show ?thesis using absolute_parse by blast
qed

section \<open>Edges to a shared library\<close>




section \<open>The lookup of a row\<close>

lemma GET_ROW_ID_Inr:
  assumes "GET_ROW_ID db env path dsc = Inr n"
  obtains row rows where "matching_rows db env path dsc = row # rows" "n = row_id row"
  using assms by (auto simp: GET_ROW_ID_def split: if_splits list.splits)

lemma distinct_filter_le_1:
  assumes "distinct (map f xs)"
  shows "length (filter (\<lambda>r. f r = x \<and> P r) xs) \<le> 1"
proof -
  have "length (filter (\<lambda>r. f r = x \<and> P r) xs) \<le> length (filter (\<lambda>r. f r = x) xs)"
    by (induction xs) auto
  also from assms have "\<dots> \<le> 1"
    by (simp add: length_filter_count distinct_count_atmost_1)
  finally show ?thesis .
qed

text \<open>
  C5, as the code has it. For every library edge \<^verbatim>\<open>parse\<close> inserts, the lookup by
  (environment, library path, platform description) finds at least one row and takes the
  first (\<^verbatim>\<open>LIMIT 1\<close>). Exactly one row matches when no two entries of the flat list have the
  same path, which excludes a library used by two components, and the table held no
  earlier row of this environment and platform description.
\<close>

theorem lookup_takes_first_match:
  assumes "InstancedInfTable_parse ext self db = (None, db')"
  shows "\<exists>dscp inf_entries env.
     DscP_ParseFile ext (t_env self) (t_dsc self) = Inr dscp \<and>
     build_inf_table ext self dscp = Inr inf_entries \<and>
     SELECT_LATEST_ENVIRONMENT db = Inr env \<and>
     (\<forall>consumer \<in> set (map (relativize ext) inf_entries).
        \<forall>library \<in> set (LIBRARIES_USED consumer).
          (\<exists>row rows. matching_rows db' env library (DSC consumer) = row # rows \<and>
             GET_ROW_ID db' env library (DSC consumer) = Inr (row_id row)) \<and>
          (distinct (map PATH (map (relativize ext) inf_entries)) \<and>
           (\<forall>row \<in> set (instanced_inf db).
              row_env row = env \<longrightarrow> row_dsc row \<noteq> path_name ext (t_dsc self)) \<longrightarrow>
           length (matching_rows db' env library (DSC consumer)) = 1))"
proof -
  from assms obtain dscp inf_entries env where
    d: "DscP_ParseFile ext (t_env self) (t_dsc self) = Inr dscp" and
    b: "build_inf_table ext self dscp = Inr inf_entries" and
    s: "SELECT_LATEST_ENVIRONMENT db = Inr env" and
    rows: "instanced_inf db' =
       instanced_inf db @ new_rows env (instanced_inf_seq db) (map (relativize ext) inf_entries)" and
    edges: "\<forall>entry \<in> set (map (relativize ext) inf_entries). \<exists>inf_id.
       GET_ROW_ID db' env (PATH entry) (DSC entry) = Inr inf_id \<and>
       (\<forall>library \<in> set (LIBRARIES_USED entry). \<exists>used_inf_id.
          GET_ROW_ID db' env library (DSC entry) = Inr used_inf_id \<and>
          library_edge inf_id used_inf_id \<in> set (junction db'))"
    by (rule InstancedInfTable_parse_rows)
  let ?entries = "map (relativize ext) inf_entries"
  let ?new = "new_rows env (instanced_inf_seq db) ?entries"
  have "(\<exists>row rows. matching_rows db' env library (DSC consumer) = row # rows \<and>
             GET_ROW_ID db' env library (DSC consumer) = Inr (row_id row)) \<and>
          (distinct (map PATH ?entries) \<and>
           (\<forall>row \<in> set (instanced_inf db).
              row_env row = env \<longrightarrow> row_dsc row \<noteq> path_name ext (t_dsc self)) \<longrightarrow>
           length (matching_rows db' env library (DSC consumer)) = 1)"
    if consumer: "consumer \<in> set ?entries" and library: "library \<in> set (LIBRARIES_USED consumer)"
    for consumer library
  proof -
    from edges consumer library obtain used_inf_id where
      g: "GET_ROW_ID db' env library (DSC consumer) = Inr used_inf_id" by blast
    then obtain row others where
      m: "matching_rows db' env library (DSC consumer) = row # others" and
      u: "used_inf_id = row_id row"
      by (rule GET_ROW_ID_Inr)
    from consumer build_inf_table_fields [OF b]
    have dsc: "DSC consumer = path_name ext (t_dsc self)"
      by (auto simp: relativize_fields(1))
    have one: "length (matching_rows db' env library (DSC consumer)) = 1"
      if dist: "distinct (map PATH ?entries)"
        and old: "\<forall>row \<in> set (instanced_inf db).
              row_env row = env \<longrightarrow> row_dsc row \<noteq> path_name ext (t_dsc self)"
    proof -
      from old dsc have "filter (\<lambda>r. row_env r = env \<and> row_path r = library \<and>
          row_dsc r = DSC consumer) (instanced_inf db) = []"
        by (auto simp: filter_empty_conv)
      with rows have "matching_rows db' env library (DSC consumer) =
          filter (\<lambda>r. row_path r = library \<and> (row_env r = env \<and> row_dsc r = DSC consumer)) ?new"
        unfolding matching_rows_def by (auto intro: filter_cong)
      moreover from dist have "distinct (map row_path ?new)"
        by (simp only: new_rows_columns(1))
      then have "length (filter (\<lambda>r. row_path r = library \<and>
          (row_env r = env \<and> row_dsc r = DSC consumer)) ?new) \<le> 1"
        by (rule distinct_filter_le_1)
      ultimately have "length (matching_rows db' env library (DSC consumer)) \<le> 1" by simp
      with m show ?thesis by simp
    qed
    from g m u one show ?thesis by blast
  qed
  with d b s show ?thesis by blast
qed

lemma diamond_table_entries:
  "build_inf_table example_ext example_table (example_dscp ''Platform.dsc'')
     = Inr (butlast diamond_entries @
            [example_entry ''Platform.dsc'' ''Comp.inf'' ''Comp'' ''DXE_DRIVER'' None
               [''Comp.c''] [''LibA.inf'', ''LibB.inf'']])"
  using diamond_table by (simp add: diamond_entries_def)

theorem lookup_takes_first_match_witness:
  "InstancedInfTable_parse example_ext example_table example_store = (None, diamond_store) \<and>
   length (matching_rows diamond_store 1 ''LibC.inf'' ''Platform.dsc'') = 1"
proof -
  from lookup_takes_first_match [OF diamond_parse]
  obtain dscp inf_entries env where
    d: "DscP_ParseFile example_ext (t_env example_table) (t_dsc example_table) = Inr dscp" and
    b: "build_inf_table example_ext example_table dscp = Inr inf_entries" and
    s: "SELECT_LATEST_ENVIRONMENT example_store = Inr env" and
    c: "\<forall>consumer \<in> set (map (relativize example_ext) inf_entries).
        \<forall>library \<in> set (LIBRARIES_USED consumer).
          distinct (map PATH (map (relativize example_ext) inf_entries)) \<and>
           (\<forall>row \<in> set (instanced_inf example_store).
              row_env row = env \<longrightarrow> row_dsc row \<noteq> path_name example_ext (t_dsc example_table)) \<longrightarrow>
           length (matching_rows diamond_store env library (DSC consumer)) = 1"
    by blast
  from d have "dscp = example_dscp ''Platform.dsc''"
    by (simp add: example_ext_sel example_table_sel)
  with b diamond_table_entries have entries: "inf_entries = butlast diamond_entries @
            [example_entry ''Platform.dsc'' ''Comp.inf'' ''Comp'' ''DXE_DRIVER'' None
               [''Comp.c''] [''LibA.inf'', ''LibB.inf'']]" by simp
  from s have env: "env = 1"
    by (simp add: SELECT_LATEST_ENVIRONMENT_def example_store_def)
  have "length (matching_rows diamond_store 1 ''LibC.inf'' ''Platform.dsc'') = 1"
    using c [unfolded entries env, rule_format,
        of "example_entry ''Platform.dsc'' ''LibA.inf'' ''LibA'' ''BASE'' (Some ''Comp.inf'') []
              [''LibC.inf'']" "''LibC.inf''"]
    by (simp add: diamond_entries_def relativize_def example_entry_def example_ext_sel
                  example_store_def)
  with diamond_parse show ?thesis by simp
qed

text \<open>
  The claim as the specification words it has exactly one matching row at every lookup.
  In the example with two components that use the same library, the table holds two rows
  for \<^verbatim>\<open>LibC.inf\<close> (rows 1 and 3, one for each component) when the edges are made; the
  lookup takes row 1 both times, so the edge of the second component (row 4) goes to the
  library row of the first.
\<close>

theorem lookup_takes_first_match_counterexample:
  "InstancedInfTable_parse example_ext (example_table_for ''Shared.dsc'') example_store
     = (None, shared_store) \<and>
   map row_id (matching_rows shared_store 1 ''LibC.inf'' ''Shared.dsc'') = [1, 3] \<and>
   junction shared_store =
     [source_edge 2 ''Comp2.c'', library_edge 2 1, source_edge 4 ''Comp4.c'', library_edge 4 1]"
  using shared_parse by (simp add: shared_store_def example_row_def matching_rows_def)

section \<open>The orchestrator\<close>

lemma spec_run_steps_append:
  "spec_run_steps (a @ b) c =
     (case spec_run_steps a c of
        (Some e, c) \<Rightarrow> (Some e, c)
      | (None, c) \<Rightarrow> spec_run_steps b c)"
  by (induction a arbitrary: c) (auto split: prod.splits option.splits)

lemma on_cursor_step:
  "on_cursor method c = (fst (method (pending c)), c\<lparr>pending := snd (method (pending c))\<rparr>)"
  by (simp add: on_cursor_def split: prod.splits)

lemma create_all_tables_steps:
  "create_all_tables ps c = spec_run_steps (map Create_tables ps) c"
proof (induction ps arbitrary: c)
  case Nil
  then show ?case by simp
next
  case (Cons p ps)
  then show ?case
    by (cases "fst (create_tables p (pending c))") (simp_all add: on_cursor_step)
qed

lemma fill_all_tables_steps:
  "fill_all_tables ps c = spec_run_steps (concat (map (\<lambda>p. [Parse p, Commit]) ps)) c"
proof (induction ps arbitrary: c)
  case Nil
  then show ?case by simp
next
  case (Cons p ps)
  then show ?case
    by (cases "fst (parse p (pending c))") (simp_all add: on_cursor_step commit_def)
qed

text \<open>
  C9. \<^verbatim>\<open>Edk2DB.parse\<close> does what running these steps in this order does, stopping at the
  first that raises: the junction table is ensured, then \<^verbatim>\<open>create_tables\<close> of every
  registered generator in registration order, then for every registered generator in
  registration order its \<^verbatim>\<open>parse\<close> followed at once by a commit.
\<close>

theorem Edk2DB_parse_order:
  "Edk2DB_parse self =
     (case spec_run_steps (spec_parse_steps (parsers self)) (connection self) of
        (r, c) \<Rightarrow> (r, self\<lparr>connection := c\<rparr>))"
proof -
  have first: "spec_do_step Ensure_junction_table (connection self)
                 = (None, CREATE_JUNCTION_TABLE (connection self))"
    by (simp add: CREATE_JUNCTION_TABLE_def CREATE_TABLE_IF_NOT_EXISTS_def)
  show ?thesis
    unfolding Edk2DB_parse_def spec_parse_steps_def
    by (simp add: first spec_run_steps_append create_all_tables_steps fill_all_tables_steps
             del: spec_do_step.simps split: prod.splits option.splits)
qed

text \<open>
  Two recording generators on a database without tables, and a third run between them
  whose \<^verbatim>\<open>parse\<close> raises: the calls are recorded in the order of the steps, which needs the
  junction table to be there before the first \<^verbatim>\<open>create_tables\<close>, and a commit has followed
  the \<^verbatim>\<open>parse\<close> of the first generator before the second was started.
\<close>

theorem Edk2DB_parse_order_witness:
  "fst (Edk2DB_parse
          \<lparr>parsers = [recording_generator ''A'', recording_generator ''B''],
           connection = empty_connection\<rparr>) = None \<and>
   junction (committed (connection (snd (Edk2DB_parse
          \<lparr>parsers = [recording_generator ''A'', recording_generator ''B''],
           connection = empty_connection\<rparr>)))) =
     [call_row ''create_tables'' ''A'', call_row ''create_tables'' ''B'',
      call_row ''parse'' ''A'', call_row ''parse'' ''B''] \<and>
   fst (Edk2DB_parse
          \<lparr>parsers = [recording_generator ''A'', failing_generator, recording_generator ''B''],
           connection = empty_connection\<rparr>) = Some (RuntimeError ''stop'') \<and>
   junction (committed (connection (snd (Edk2DB_parse
          \<lparr>parsers = [recording_generator ''A'', failing_generator, recording_generator ''B''],
           connection = empty_connection\<rparr>)))) =
     [call_row ''create_tables'' ''A'', call_row ''create_tables'' ''B'', call_row ''parse'' ''A'']"
  unfolding Edk2DB_parse_order
  by (simp add: spec_parse_steps_def recording_generator_def failing_generator_def
                INSERT_JUNCTION_ROW_def call_row_def empty_connection_def empty_store_def)

lemma fill_all_tables_raise:
  assumes "fill_all_tables pre c = (None, c1)"
    and "parse g (pending c1) = (Some e, db)"
  shows "fill_all_tables (pre @ g # post) c = (Some e, c1\<lparr>pending := db\<rparr>)"
  using assms
proof (induction pre arbitrary: c)
  case Nil
  then show ?case by (simp add: on_cursor_def)
next
  case (Cons p pre)
  then show ?case by (auto split: prod.splits option.splits)
qed

lemma fill_all_tables_committed:
  "fill_all_tables pre c = (None, c1) \<Longrightarrow> pre \<noteq> [] \<Longrightarrow> committed c1 = pending c1"
proof (induction pre arbitrary: c)
  case Nil
  then show ?case by simp
next
  case (Cons p pre)
  from Cons.prems(1) obtain c' where
    step: "on_cursor (parse p) c = (None, c')" and
    rest: "fill_all_tables pre (commit c') = (None, c1)"
    by (auto split: prod.splits option.splits)
  show ?case
  proof (cases pre)
    case Nil
    with rest have "c1 = commit c'" by simp
    then show ?thesis by (simp add: commit_def)
  next
    case (Cons q qs)
    with Cons.IH [OF rest] show ?thesis by simp
  qed
qed

text \<open>
  C7, as the code has it. When the \<^verbatim>\<open>parse\<close> of a registered generator raises after the
  generators before it have run, \<^verbatim>\<open>Edk2DB.parse\<close> raises the same error; what is committed
  is what was committed after the generators before it; what the failing generator wrote
  stays pending on the connection, and \<^verbatim>\<open>__exit__\<close>, which commits whatever the reason for
  leaving the block, commits it.
\<close>

theorem failing_generator_stays_pending:
  assumes "parsers self = pre @ g # post"
    and "create_all_tables (parsers self) (CREATE_JUNCTION_TABLE (connection self)) = (None, c0)"
    and "fill_all_tables pre c0 = (None, c1)"
    and "parse g (pending c1) = (Some e, db)"
  shows "Edk2DB_parse self = (Some e, self\<lparr>connection := c1\<lparr>pending := db\<rparr>\<rparr>) \<and>
         committed (connection (snd (Edk2DB_parse self))) = committed c1 \<and>
         (pre \<noteq> [] \<longrightarrow> committed c1 = pending c1) \<and>
         pending (connection (snd (Edk2DB_parse self))) = db \<and>
         committed (connection (Edk2DB_exit (snd (Edk2DB_parse self)))) = db"
proof -
  from fill_all_tables_raise [OF assms(3,4)] assms(1)
  have "fill_all_tables (parsers self) c0 = (Some e, c1\<lparr>pending := db\<rparr>)" by simp
  with assms(2)
  have run: "Edk2DB_parse self = (Some e, self\<lparr>connection := c1\<lparr>pending := db\<rparr>\<rparr>)"
    by (simp add: Edk2DB_parse_def)
  moreover have "pre \<noteq> [] \<longrightarrow> committed c1 = pending c1"
    using fill_all_tables_committed [OF assms(3)] by blast
  ultimately show ?thesis by (simp add: Edk2DB_exit_def commit_def close_def)
qed

lemma failing_generator_sel:
  "create_tables failing_generator db = (None, db)"
  "parse failing_generator db =
     (case INSERT_JUNCTION_ROW ''instanced_inf'' (Integer 1) ''source'' (Text ''a.c'') db of
        (Some e, db) \<Rightarrow> (Some e, db)
      | (None, db) \<Rightarrow> (Some (RuntimeError ''stop''), db))"
  by (simp_all add: failing_generator_def)

lemmas connection_eval =
  Edk2DB_parse_def Edk2DB_exit_def on_cursor_def commit_def close_def
  CREATE_JUNCTION_TABLE_def CREATE_TABLE_IF_NOT_EXISTS_def INSERT_JUNCTION_ROW_def
  example_connection_def example_store_def failing_generator_sel source_edge_def

theorem failing_generator_stays_pending_witness:
  "Edk2DB_parse \<lparr>parsers = [failing_generator], connection = example_connection\<rparr> =
     (Some (RuntimeError ''stop''),
      \<lparr>parsers = [failing_generator],
       connection = example_connection
         \<lparr>pending := example_store\<lparr>junction := [source_edge 1 ''a.c'']\<rparr>\<rparr>\<rparr>) \<and>
   committed (connection (snd (Edk2DB_parse
      \<lparr>parsers = [failing_generator], connection = example_connection\<rparr>))) = example_store"
proof -
  let ?self = "\<lparr>parsers = [failing_generator], connection = example_connection\<rparr>"
  have 1: "parsers ?self = [] @ failing_generator # []" by simp
  have 2: "create_all_tables (parsers ?self) (CREATE_JUNCTION_TABLE (connection ?self))
             = (None, example_connection)"
    by (simp add: connection_eval insert_absorb)
  have 3: "fill_all_tables [] example_connection = (None, example_connection)" by simp
  have 4: "parse failing_generator (pending example_connection)
             = (Some (RuntimeError ''stop''), example_store\<lparr>junction := [source_edge 1 ''a.c'']\<rparr>)"
    by (simp add: connection_eval)
  from failing_generator_stays_pending [OF 1 2 3 4]
  show ?thesis by (simp add: example_connection_def)
qed

text \<open>
  The claim as the specification words it has the failing generator's work never
  committed, also when the context manager exits because of the error. Here the junction
  row the failing generator inserted before it raised is in the committed database after
  \<^verbatim>\<open>__exit__\<close>.
\<close>

theorem failing_generator_stays_pending_counterexample:
  "fst (Edk2DB_parse \<lparr>parsers = [failing_generator], connection = example_connection\<rparr>)
     = Some (RuntimeError ''stop'') \<and>
   junction (committed example_connection) = [] \<and>
   junction (committed (connection (Edk2DB_exit (snd (Edk2DB_parse
      \<lparr>parsers = [failing_generator], connection = example_connection\<rparr>)))))
     = [source_edge 1 ''a.c'']"
  by (simp add: connection_eval)

section \<open>An unresolved library class\<close>

lemma lib_to_instance_cases:
  assumes "CHR ''.'' \<notin> set arch" and "CHR ''.'' \<notin> set module"
  shows "(\<exists>inst. lib_to_instance self cls (arch @ ''.'' @ module) ld od = Inr inst) \<or>
         lib_to_instance self cls (arch @ ''.'' @ module) ld od =
           Inl (RuntimeError (cannot_find self cls (arch @ ''.'' @ module)))"
  unfolding lib_to_instance_def split_scope [OF assms]
  by (simp split: option.splits)

lemma lib_to_instance_unresolved:
  assumes "CHR ''.'' \<notin> set arch" and "CHR ''.'' \<notin> set module"
    and "map_of (classes od) cls = None"
    and "map_of ld (arch @ ''.'' @ module @ ''.'' @ cls) = None"
    and "map_of ld (''common.'' @ module @ ''.'' @ cls) = None"
    and "map_of ld (arch @ ''.'' @ cls) = None"
    and "map_of ld (''common.'' @ cls) = None"
  shows "lib_to_instance self cls (arch @ ''.'' @ module) ld od =
           Inl (RuntimeError (cannot_find self cls (arch @ ''.'' @ module)))"
  unfolding lib_to_instance_def split_scope [OF assms(1,2)]
  using assms(3-) by simp

lemma resolve_libraries_unresolved:
  assumes "CHR ''.'' \<notin> set arch" and "CHR ''.'' \<notin> set module"
    and "lib \<in> set libs"
    and "lib_to_instance self (lower (case split_str CHR '' '' lib of [] \<Rightarrow> [] | w # _ \<Rightarrow> w))
           (arch @ ''.'' @ module) ld od =
         Inl (RuntimeError (cannot_find self
           (lower (case split_str CHR '' '' lib of [] \<Rightarrow> [] | w # _ \<Rightarrow> w))
           (arch @ ''.'' @ module)))"
  shows "\<exists>lib' \<in> set libs. resolve_libraries self libs (arch @ ''.'' @ module) ld od =
           Inl (RuntimeError (cannot_find self
             (lower (case split_str CHR '' '' lib' of [] \<Rightarrow> [] | w # _ \<Rightarrow> w))
             (arch @ ''.'' @ module)))"
  using assms(3,4)
proof (induction libs)
  case Nil
  then show ?case by simp
next
  case (Cons l libs)
  let ?cn = "\<lambda>lib. lower (case split_str CHR '' '' lib of [] \<Rightarrow> [] | w # _ \<Rightarrow> w)"
  from lib_to_instance_cases [OF assms(1,2), of self "?cn l" ld od]
  show ?case
  proof
    assume "\<exists>inst. lib_to_instance self (?cn l) (arch @ ''.'' @ module) ld od = Inr inst"
    then obtain inst where
      ok: "lib_to_instance self (?cn l) (arch @ ''.'' @ module) ld od = Inr inst" ..
    with Cons.prems have "lib \<in> set libs" by auto
    from Cons.IH [OF this Cons.prems(2)] obtain lib' where
      "lib' \<in> set libs" and
      "resolve_libraries self libs (arch @ ''.'' @ module) ld od =
         Inl (RuntimeError (cannot_find self (?cn lib') (arch @ ''.'' @ module)))"
      by blast
    with ok show ?thesis by (auto simp: Let_def)
  next
    assume "lib_to_instance self (?cn l) (arch @ ''.'' @ module) ld od =
              Inl (RuntimeError (cannot_find self (?cn l) (arch @ ''.'' @ module)))"
    then show ?thesis by (auto simp: Let_def)
  qed
qed

lemma parse_inf_recursively_unresolved:
  assumes "InfP_ParseFile ext inf_file = Inr infp"
    and "resolve_libraries self (get_libraries infp (t_arch self)) scope ld od = Inl e"
  shows "parse_inf_recursively ext self inf_file component ld od scope visited = Inl e"
  using assms by (simp add: parse_inf_recursively.simps)

lemma component_entries_raise:
  assumes "component_entries ext self ld pre = Inr entries"
    and "InfP_ParseFile ext c = Inr infp"
    and "Dict infp ''LIBRARY_CLASS'' = None"
    and "Dict infp ''MODULE_TYPE'' = Some module_type"
    and "parse_inf_recursively ext self c c ld overrides
           (scope @ lower (''.'' @ module_type)) [] = Inl e"
  shows "component_entries ext self ld (pre @ (c, scope, overrides) # post) = Inl e"
  using assms(1)
proof (induction pre arbitrary: entries)
  case Nil
  from assms(2-) show ?case by simp
next
  case (Cons comp pre)
  obtain inf_file scope' overrides' where comp: "comp = (inf_file, scope', overrides')"
    by (cases comp)
  from Cons.prems [unfolded comp] show ?case
  proof (cases rule: component_entries_Cons_Inr)
    case library
    from Cons.IH [OF library(2)] library(1) show ?thesis
      unfolding comp by (auto simp: is_library_def split: sum.splits)
  next
    case (component scope'' rows v others)
    from Cons.IH [OF component(3)] Cons.prems show ?thesis
      unfolding comp by (auto simp: Let_def split: sum.splits if_splits prod.splits)
  qed
qed

lemma InstancedInfTable_parse_raise:
  assumes "DscP_ParseFile ext (t_env self) (t_dsc self) = Inr dscp"
    and "build_inf_table ext self dscp = Inl e"
  shows "InstancedInfTable_parse ext self db = (Some e, db)"
  using assms by (simp add: InstancedInfTable_parse_def)

lemma component_entries_expanded:
  "component_entries ext self ld comps = Inr entries \<Longrightarrow>
   \<forall>component \<in> set comps. \<not> is_library ext component \<longrightarrow>
     (\<exists>scope rows visited.
        parse_inf_recursively ext self (fst component) (fst component) ld
          (snd (snd component)) scope [] = Inr (rows, visited) \<and>
        (\<forall>n \<in> set visited. expanded ext self ld (snd (snd component)) scope rows n))"
proof (induction comps arbitrary: entries)
  case Nil
  then show ?case by simp
next
  case (Cons comp comps)
  obtain inf_file scope overrides where comp: "comp = (inf_file, scope, overrides)"
    by (cases comp)
  from Cons.prems [unfolded comp] show ?case
  proof (cases rule: component_entries_Cons_Inr)
    case library
    from Cons.IH [OF library(2)] library(1) show ?thesis unfolding comp by simp
  next
    case (component scope' rows v others)
    from expansion_expanded(1) [OF component(2)]
    have "\<forall>n \<in> set v. expanded ext self ld overrides scope' rows n" by simp
    with component(2) Cons.IH [OF component(3)] show ?thesis
      unfolding comp by (simp add: exI [of _ scope'])
  qed
qed


section \<open>The flat list, component by component\<close>

lemma component_entries_runs:
  "component_entries ext self ld comps = Inr entries \<Longrightarrow>
   \<exists>runs. map (expand_component ext self ld)
              (filter (\<lambda>component. \<not> is_library ext component) comps) = map Inr runs \<and>
          entries = concat (map fst runs)"
proof (induction comps arbitrary: entries)
  case Nil
  then show ?case by simp
next
  case (Cons comp comps)
  obtain inf_file scope overrides where comp: "comp = (inf_file, scope, overrides)"
    by (cases comp)
  show ?case
  proof (cases "is_library ext comp")
    case True
    with Cons.prems have "component_entries ext self ld comps = Inr entries"
      unfolding comp by (auto simp: is_library_def split: sum.splits if_splits)
    from Cons.IH [OF this] True show ?thesis by simp
  next
    case False
    with Cons.prems obtain rows v others where
      run: "expand_component ext self ld comp = Inr (rows, v)" and
      rest: "component_entries ext self ld comps = Inr others" and
      entries: "entries = rows @ others"
      unfolding comp
      by (auto simp: is_library_def expand_component_def component_scope_def Let_def
               split: sum.splits if_splits prod.splits option.splits)
    from Cons.IH [OF rest] obtain runs where
      "map (expand_component ext self ld)
         (filter (\<lambda>component. \<not> is_library ext component) comps) = map Inr runs" and
      "others = concat (map fst runs)" by blast
    with run entries False have
      "map (expand_component ext self ld)
         (filter (\<lambda>component. \<not> is_library ext component) (comp # comps))
         = map Inr ((rows, v) # runs) \<and>
       entries = concat (map fst ((rows, v) # runs))"
      by simp
    then show ?thesis by blast
  qed
qed

lemma second_ext_sel:
  "as_posix second_ext p = (if take 2 p = ''./'' then drop 2 p else p)"
  "path_name second_ext p = p"
  "is_absolute second_ext p = (take 1 p = ''/'')"
  "InfP_ParseFile second_ext = second_inf"
  "DscP_ParseFile second_ext env q = Inr (second_dscp q)"
  by (simp_all add: second_ext_def)

lemmas second_defs =
  second_ext_def second_inf_def second_library_dict_def second_components_def second_dscp_def
  example_table_def example_table_for_def no_overrides_def module_view_def library_view_def
  example_entry_def

lemma dotted_table:
  "build_inf_table second_ext (example_table_for ''Dotted.dsc'') (second_dscp ''Dotted.dsc'')
     = Inr dotted_entries"
  by (simp add: build_inf_table_def move_entry_def expansion_eval second_defs Let_def
                dotted_entries_def)

lemma second_diamond_expansion:
  "expand_component second_ext (example_table_for ''Diamond.dsc'') second_library_dict
     (''Comp8.inf'', ''ia32'', no_overrides)
   = Inr (second_diamond_rows, [''Comp8.inf'', ''LibF.inf'', ''LibC.inf'', ''./LibH.inf''])"
  by (simp add: expand_component_def component_scope_def expansion_eval second_defs Let_def
                second_diamond_rows_def)

lemma second_diamond_table:
  "build_inf_table second_ext (example_table_for ''Diamond.dsc'') (second_dscp ''Diamond.dsc'')
     = Inr (map move_entry second_diamond_rows)"
  by (simp add: build_inf_table_def move_entry_def expansion_eval second_defs Let_def
                second_diamond_rows_def)

section \<open>Errors leave the recursion\<close>

lemma expansion_closed:
  "parse_inf_recursively ext self inf_file component ld od scope visited = Inr (rows, v) \<Longrightarrow>
   \<forall>n \<in> set v - set visited.
     (\<exists>infp resolved. InfP_ParseFile ext n = Inr infp \<and>
        resolve_libraries self (get_libraries infp (t_arch self)) scope ld od = Inr resolved) \<and>
     (\<forall>m. (n, m) \<in> uses ext self ld od scope \<longrightarrow> m \<in> set v)"
  "visit_libraries ext self libs component ld od scope visited = Inr (rows, v) \<Longrightarrow>
   \<forall>n \<in> set v - set visited.
     (\<exists>infp resolved. InfP_ParseFile ext n = Inr infp \<and>
        resolve_libraries self (get_libraries infp (t_arch self)) scope ld od = Inr resolved) \<and>
     (\<forall>m. (n, m) \<in> uses ext self ld od scope \<longrightarrow> m \<in> set v)"
proof (induction ext self inf_file component ld od scope visited
         and ext self libs component ld od scope visited
       arbitrary: rows v and rows v
       rule: parse_inf_recursively_visit_libraries.induct)
  case (1 ext self inf_file component library_dict override_dict scope visited)
  from "1.prems"(1) show ?case
  proof (rule parse_inf_recursively_Inr)
    fix infp resolved to_return entry
    assume p: "InfP_ParseFile ext inf_file = Inr infp"
      and r: "resolve_libraries self (get_libraries infp (t_arch self)) scope library_dict
                override_dict = Inr resolved"
      and v: "visit_libraries ext self
                (resolved @ filter (\<lambda>null_lib. null_lib \<noteq> inf_file) (NULL override_dict))
                component library_dict override_dict scope (visited @ [inf_file])
              = Inr (to_return, v)"
    from expansion_libraries_used(2) [OF v]
    have "set (resolved @ filter (\<lambda>null_lib. null_lib \<noteq> inf_file) (NULL override_dict))
            \<subseteq> set v" by blast
    then have "\<forall>m. (inf_file, m) \<in> uses ext self library_dict override_dict scope
                 \<longrightarrow> m \<in> set v"
      using p r unfolding uses_def by (simp add: subset_iff)
    with p r have here:
      "(\<exists>infp resolved. InfP_ParseFile ext inf_file = Inr infp \<and>
          resolve_libraries self (get_libraries infp (t_arch self)) scope library_dict
            override_dict = Inr resolved) \<and>
       (\<forall>m. (inf_file, m) \<in> uses ext self library_dict override_dict scope \<longrightarrow> m \<in> set v)"
      by blast
    show ?thesis
    proof
      fix n assume n: "n \<in> set v - set visited"
      show "(\<exists>infp resolved. InfP_ParseFile ext n = Inr infp \<and>
          resolve_libraries self (get_libraries infp (t_arch self)) scope library_dict
            override_dict = Inr resolved) \<and>
       (\<forall>m. (n, m) \<in> uses ext self library_dict override_dict scope \<longrightarrow> m \<in> set v)"
      proof (cases "n = inf_file")
        case True
        with here show ?thesis by simp
      next
        case False
        with n have "n \<in> set v - set (visited @ [inf_file])" by simp
        with "1.IH" [OF refl p r refl v] show ?thesis by blast
      qed
    qed
  qed
next
  case (2 ext self component library_dict override_dict scope visited)
  then show ?case by simp
next
  case (3 ext self library rest component library_dict override_dict scope visited)
  from "3.prems"(1) show ?case
  proof (cases rule: visit_libraries_Cons_Inr)
    case skip
    from "3.IH"(1) [OF skip] show ?thesis .
  next
    case (descend to_return v1 others)
    from expansion_paths(2) [OF descend(3)] have sub: "set v1 \<subseteq> set v" by auto
    from "3.IH"(2) [OF descend(1,2)] sub
    have "\<forall>n \<in> set v1 - set visited.
     (\<exists>infp resolved. InfP_ParseFile ext n = Inr infp \<and>
        resolve_libraries self (get_libraries infp (t_arch self)) scope library_dict
          override_dict = Inr resolved) \<and>
     (\<forall>m. (n, m) \<in> uses ext self library_dict override_dict scope \<longrightarrow> m \<in> set v)"
      by blast
    moreover note "3.IH"(3) [OF descend(1,2) refl descend(3)]
    ultimately show ?thesis
    proof (intro ballI)
      fix n assume a: "\<forall>n \<in> set v1 - set visited.
     (\<exists>infp resolved. InfP_ParseFile ext n = Inr infp \<and>
        resolve_libraries self (get_libraries infp (t_arch self)) scope library_dict
          override_dict = Inr resolved) \<and>
     (\<forall>m. (n, m) \<in> uses ext self library_dict override_dict scope \<longrightarrow> m \<in> set v)"
        and b: "\<forall>n \<in> set v - set v1.
     (\<exists>infp resolved. InfP_ParseFile ext n = Inr infp \<and>
        resolve_libraries self (get_libraries infp (t_arch self)) scope library_dict
          override_dict = Inr resolved) \<and>
     (\<forall>m. (n, m) \<in> uses ext self library_dict override_dict scope \<longrightarrow> m \<in> set v)"
        and n: "n \<in> set v - set visited"
      show "(\<exists>infp resolved. InfP_ParseFile ext n = Inr infp \<and>
        resolve_libraries self (get_libraries infp (t_arch self)) scope library_dict
          override_dict = Inr resolved) \<and>
     (\<forall>m. (n, m) \<in> uses ext self library_dict override_dict scope \<longrightarrow> m \<in> set v)"
      proof (cases "n \<in> set v1")
        case True
        with n have "n \<in> set v1 - set visited" by simp
        with a show ?thesis by blast
      next
        case False
        with n have "n \<in> set v - set v1" by simp
        with b show ?thesis by blast
      qed
    qed
  qed
qed

lemma expansion_reaches:
  assumes run: "parse_inf_recursively ext self inf_file component ld od scope [] = Inr (rows, v)"
    and reach: "(inf_file, m) \<in> (uses ext self ld od scope)\<^sup>*"
  shows "m \<in> set v"
  using reach
proof (induction rule: rtrancl_induct)
  case base
  from expansion_paths(1) [OF run] show ?case by auto
next
  case (step n m)
  from step.IH have "n \<in> set v - set []" by simp
  with expansion_closed(1) [OF run]
  have "\<forall>m. (n, m) \<in> uses ext self ld od scope \<longrightarrow> m \<in> set v" by blast
  with step.hyps(2) show ?case by blast
qed

lemma unresolved_module_raises:
  assumes reach: "(inf_file, m) \<in> (uses ext self ld od scope)\<^sup>*"
    and m: "InfP_ParseFile ext m = Inr infp"
    and fails: "resolve_libraries self (get_libraries infp (t_arch self)) scope ld od = Inl e"
  shows "\<exists>e'. parse_inf_recursively ext self inf_file component ld od scope [] = Inl e'"
proof (cases "parse_inf_recursively ext self inf_file component ld od scope []")
  case (Inl e')
  then show ?thesis by blast
next
  case (Inr result)
  obtain rows v where "result = (rows, v)" by (cases result)
  with Inr have run: "parse_inf_recursively ext self inf_file component ld od scope []
    = Inr (rows, v)" by simp
  from expansion_reaches [OF run reach] have "m \<in> set v - set []" by simp
  with expansion_closed(1) [OF run] obtain infp' resolved where
    "InfP_ParseFile ext m = Inr infp'" and
    "resolve_libraries self (get_libraries infp' (t_arch self)) scope ld od = Inr resolved"
    by blast
  with m fails show ?thesis by simp
qed

section \<open>Deduplication, on the flat list\<close>

lemma run_one_row:
  assumes run: "expand_component ext self ld component = Inr (rows, visited)"
  shows "distinct visited \<and>
         mset (map PATH rows) = mset (map (as_posix ext) visited) \<and>
         (inj_on (as_posix ext) (set visited) \<longrightarrow>
            (\<forall>consumer \<in> set rows. \<forall>library \<in> set (LIBRARIES_USED consumer).
               length (filter (\<lambda>entry. PATH entry = library) rows) = 1))"
proof (intro conjI impI ballI)
  note run' = run [unfolded expand_component_def]
  from expansion_distinct(1) [OF run'] show "distinct visited" by simp
  from expansion_paths(1) [OF run']
  show "mset (map PATH rows) = mset (map (as_posix ext) visited)" by auto
  fix consumer library
  assume inj: "inj_on (as_posix ext) (set visited)"
    and "consumer \<in> set rows" and "library \<in> set (LIBRARIES_USED consumer)"
  with expansion_libraries_used(1) [OF run']
  obtain n where "n \<in> set visited" and "library = as_posix ext n" by blast
  with expansion_one_row [OF run' inj]
  show "length (filter (\<lambda>entry. PATH entry = library) rows) = 1" by simp
qed

text \<open>
  C3, as the code has it. The flat list of \<^verbatim>\<open>_build_inf_table\<close> is made of one run of
  \<^verbatim>\<open>_parse_inf_recursively\<close> for every declared component that is not a library, each
  started with a new, empty \<^verbatim>\<open>visited\<close>, one after the other. Within a run no module path
  is visited twice and the entries correspond one to one to the visited paths, so a path
  reached from two ancestors has one entry. \<^verbatim>\<open>visited\<close> holds the paths as they are
  written: a library that entries of the run use has exactly one entry in the run when
  different visited paths have different posix forms.
\<close>

theorem visited_deduplicates:
  assumes "build_inf_table ext self dscp = Inr inf_entries"
  shows "\<exists>runs.
     map (expand_component ext self (ScopedLibraryDict dscp))
       (filter (\<lambda>component. \<not> is_library ext component) (Components dscp)) = map Inr runs \<and>
     inf_entries = map move_entry (concat (map fst runs)) \<and>
     (\<forall>(rows, visited) \<in> set runs.
        distinct visited \<and>
        mset (map PATH rows) = mset (map (as_posix ext) visited) \<and>
        (inj_on (as_posix ext) (set visited) \<longrightarrow>
           (\<forall>consumer \<in> set rows. \<forall>library \<in> set (LIBRARIES_USED consumer).
              length (filter (\<lambda>entry. PATH entry = library) rows) = 1)))"
proof -
  from assms obtain entries where
    raw: "component_entries ext self (ScopedLibraryDict dscp) (Components dscp) = Inr entries"
    and moved: "inf_entries = map move_entry entries"
    by (rule build_inf_table_Inr)
  from component_entries_runs [OF raw] obtain runs where
    runs: "map (expand_component ext self (ScopedLibraryDict dscp))
       (filter (\<lambda>component. \<not> is_library ext component) (Components dscp)) = map Inr runs"
    and entries: "entries = concat (map fst runs)" by blast
  have "distinct visited \<and>
        mset (map PATH rows) = mset (map (as_posix ext) visited) \<and>
        (inj_on (as_posix ext) (set visited) \<longrightarrow>
           (\<forall>consumer \<in> set rows. \<forall>library \<in> set (LIBRARIES_USED consumer).
              length (filter (\<lambda>entry. PATH entry = library) rows) = 1))"
    if "(rows, visited) \<in> set runs" for rows visited
  proof -
    from that have "Inr (rows, visited) \<in> set (map Inr runs)" by simp
    with runs obtain component where
      "expand_component ext self (ScopedLibraryDict dscp) component = Inr (rows, visited)"
      by (metis (no_types, lifting) in_set_conv_nth length_map nth_map nth_mem)
    then show ?thesis by (rule run_one_row)
  qed
  with runs entries moved show ?thesis by blast
qed

theorem visited_deduplicates_witness:
  "build_inf_table second_ext (example_table_for ''Diamond.dsc'') (second_dscp ''Diamond.dsc'')
     = Inr (map move_entry second_diamond_rows) \<and>
   expand_component second_ext (example_table_for ''Diamond.dsc'') second_library_dict
     (''Comp8.inf'', ''ia32'', no_overrides)
     = Inr (second_diamond_rows, [''Comp8.inf'', ''LibF.inf'', ''LibC.inf'', ''./LibH.inf'']) \<and>
   inj_on (as_posix second_ext) (set [''Comp8.inf'', ''LibF.inf'', ''LibC.inf'', ''./LibH.inf'']) \<and>
   ''LibC.inf'' \<in> set (LIBRARIES_USED (second_diamond_rows ! 1)) \<and>
   ''LibC.inf'' \<in> set (LIBRARIES_USED (second_diamond_rows ! 2)) \<and>
   length (filter (\<lambda>entry. PATH entry = ''LibC.inf'') second_diamond_rows) = 1"
proof -
  let ?visited = "[''Comp8.inf'', ''LibF.inf'', ''LibC.inf'', ''./LibH.inf'']"
  have comps: "filter (\<lambda>component. \<not> is_library second_ext component)
      (Components (second_dscp ''Diamond.dsc'')) = [(''Comp8.inf'', ''ia32'', no_overrides)]"
    by (simp add: is_library_def second_defs)
  have inj: "inj_on (as_posix second_ext) (set ?visited)"
    by (simp add: second_ext_sel)
  have used: "second_diamond_rows ! 1 \<in> set second_diamond_rows"
    "''LibC.inf'' \<in> set (LIBRARIES_USED (second_diamond_rows ! 1))"
    "''LibC.inf'' \<in> set (LIBRARIES_USED (second_diamond_rows ! 2))"
    by (simp_all add: second_diamond_rows_def example_entry_def)
  from visited_deduplicates [OF second_diamond_table] obtain runs where
    r: "map (expand_component second_ext (example_table_for ''Diamond.dsc'')
              (ScopedLibraryDict (second_dscp ''Diamond.dsc'')))
          (filter (\<lambda>component. \<not> is_library second_ext component)
             (Components (second_dscp ''Diamond.dsc''))) = map Inr runs" and
    p: "\<forall>(rows, visited) \<in> set runs.
        distinct visited \<and>
        mset (map PATH rows) = mset (map (as_posix second_ext) visited) \<and>
        (inj_on (as_posix second_ext) (set visited) \<longrightarrow>
           (\<forall>consumer \<in> set rows. \<forall>library \<in> set (LIBRARIES_USED consumer).
              length (filter (\<lambda>entry. PATH entry = library) rows) = 1))"
    by blast
  have dict: "ScopedLibraryDict (second_dscp ''Diamond.dsc'') = second_library_dict"
    by (simp add: second_dscp_def)
  from r have "runs = [(second_diamond_rows, ?visited)]"
    unfolding comps dict by (auto simp: second_diamond_expansion)
  with p inj used
  have "length (filter (\<lambda>entry. PATH entry = ''LibC.inf'') second_diamond_rows) = 1"
    by auto
  with second_diamond_table second_diamond_expansion inj used show ?thesis by blast
qed

text \<open>
  The claim as the specification words it has exactly one entry for a library reached
  from two ancestors. \<^verbatim>\<open>visited\<close> is compared by the paths as written: here \<^verbatim>\<open>LibF.inf\<close>
  reaches the library as \<^verbatim>\<open>LibC.inf\<close> and \<^verbatim>\<open>LibG.inf\<close> reaches it as \<^verbatim>\<open>./LibC.inf\<close>, both are
  expanded, and the flat list of the one component has two entries with the path
  \<^verbatim>\<open>LibC.inf\<close>.
\<close>

theorem visited_deduplicates_counterexample:
  "Components (second_dscp ''Dotted.dsc'') = [(''Comp7.inf'', ''ia32'', no_overrides)] \<and>
   build_inf_table second_ext (example_table_for ''Dotted.dsc'') (second_dscp ''Dotted.dsc'')
     = Inr dotted_entries \<and>
   map PATH dotted_entries =
     [''LibC.inf'', ''LibF.inf'', ''LibC.inf'', ''LibG.inf'', ''Comp7.inf''] \<and>
   map LIBRARIES_USED dotted_entries =
     [[], [''LibC.inf''], [], [''LibC.inf''], [''LibF.inf'', ''LibG.inf'']]"
  using dotted_table
  by (simp add: second_dscp_def second_components_def dotted_entries_def example_entry_def)

section \<open>Components and libraries, counted\<close>

lemma run_root_row:
  assumes run: "expand_component ext self ld component = Inr (rows, visited)"
    and inj: "inj_on (as_posix ext) (set visited)"
  shows "length (filter (\<lambda>entry. Some (PATH entry) = COMPONENT entry) rows) = 1"
proof -
  note run' = run [unfolded expand_component_def]
  from expansion_paths(1) [OF run'] have "fst component \<in> set visited" by auto
  with expansion_one_row [OF run' inj]
  have "length (filter (\<lambda>entry. PATH entry = as_posix ext (fst component)) rows) = 1" by simp
  moreover from expansion_fields(1) [OF run']
  have "filter (\<lambda>entry. Some (PATH entry) = COMPONENT entry) rows
          = filter (\<lambda>entry. PATH entry = as_posix ext (fst component)) rows"
    by (intro filter_cong) auto
  ultimately show ?thesis by simp
qed

lemma length_filter_concat_one:
  "\<forall>run \<in> set runs. length (filter P (fst run)) = 1 \<Longrightarrow>
   length (filter P (concat (map fst runs))) = length runs"
  by (induction runs) auto

text \<open>
  C6, as the code has it. After \<^verbatim>\<open>_build_inf_table\<close> no entry is left whose component is
  its own path: each such entry has the component \<^verbatim>\<open>None\<close>. There is exactly one entry
  without a component for every declared component that is not itself a library; a
  declared component with a \<^verbatim>\<open>LIBRARY_CLASS\<close> is skipped and has none. The count is for
  platform descriptions where, within the run of each component, different visited paths
  have different posix forms.
\<close>

theorem component_rows:
  assumes "build_inf_table ext self dscp = Inr inf_entries"
  shows "(\<forall>entry \<in> set inf_entries. COMPONENT entry \<noteq> Some (PATH entry)) \<and>
         (\<exists>runs.
            map (expand_component ext self (ScopedLibraryDict dscp))
              (filter (\<lambda>component. \<not> is_library ext component) (Components dscp))
              = map Inr runs \<and>
            ((\<forall>(rows, visited) \<in> set runs. inj_on (as_posix ext) (set visited)) \<longrightarrow>
               length (filter (\<lambda>entry. COMPONENT entry = None) inf_entries)
                 = length (filter (\<lambda>component. \<not> is_library ext component)
                            (Components dscp))))"
proof -
  from assms obtain entries where
    raw: "component_entries ext self (ScopedLibraryDict dscp) (Components dscp) = Inr entries"
    and moved: "inf_entries = map move_entry entries"
    by (rule build_inf_table_Inr)
  from moved have first: "\<forall>entry \<in> set inf_entries. COMPONENT entry \<noteq> Some (PATH entry)"
    by (auto simp: move_entry_fields(4))
  from component_entries_runs [OF raw] obtain runs where
    runs: "map (expand_component ext self (ScopedLibraryDict dscp))
       (filter (\<lambda>component. \<not> is_library ext component) (Components dscp)) = map Inr runs"
    and entries: "entries = concat (map fst runs)" by blast
  have count: "length (filter (\<lambda>entry. COMPONENT entry = None) inf_entries)
      = length (filter (\<lambda>component. \<not> is_library ext component) (Components dscp))"
    if inj: "\<forall>(rows, visited) \<in> set runs. inj_on (as_posix ext) (set visited)"
  proof -
    have "length (filter (\<lambda>entry. Some (PATH entry) = COMPONENT entry) (fst run)) = 1"
      if "run \<in> set runs" for run
    proof -
      obtain rows visited where run: "run = (rows, visited)" by (cases run)
      from that have "Inr run \<in> set (map Inr runs)" by simp
      with runs obtain component where
        "expand_component ext self (ScopedLibraryDict dscp) component = Inr (rows, visited)"
        unfolding run by (metis (no_types, lifting) in_set_conv_nth length_map nth_map nth_mem)
      moreover from inj that have "inj_on (as_posix ext) (set visited)"
        unfolding run by auto
      ultimately show ?thesis unfolding run by (simp add: run_root_row)
    qed
    then have "length (filter (\<lambda>entry. Some (PATH entry) = COMPONENT entry) entries)
        = length runs"
      unfolding entries by (intro length_filter_concat_one) blast
    moreover from runs have "length runs
        = length (filter (\<lambda>component. \<not> is_library ext component) (Components dscp))"
      by (metis length_map)
    moreover from component_entries_fields [OF raw]
    have "\<forall>entry \<in> set entries. COMPONENT entry \<noteq> None" by auto
    then have "filter (\<lambda>entry. COMPONENT (move_entry entry) = None) entries
        = filter (\<lambda>entry. Some (PATH entry) = COMPONENT entry) entries"
      by (intro filter_cong) (auto simp: move_entry_fields(5))
    ultimately show ?thesis using moved by (simp add: filter_map o_def)
  qed
  from first runs count show ?thesis by blast
qed

theorem component_rows_witness:
  "build_inf_table second_ext (example_table_for ''Diamond.dsc'') (second_dscp ''Diamond.dsc'')
     = Inr (map move_entry second_diamond_rows) \<and>
   Components (second_dscp ''Diamond.dsc'') =
     [(''Comp8.inf'', ''ia32'', no_overrides), (''LibC.inf'', ''ia32'', no_overrides)] \<and>
   filter (\<lambda>component. \<not> is_library second_ext component)
     (Components (second_dscp ''Diamond.dsc'')) = [(''Comp8.inf'', ''ia32'', no_overrides)] \<and>
   inj_on (as_posix second_ext) (set [''Comp8.inf'', ''LibF.inf'', ''LibC.inf'', ''./LibH.inf'']) \<and>
   length (filter (\<lambda>entry. COMPONENT entry = None) (map move_entry second_diamond_rows)) = 1"
proof -
  let ?visited = "[''Comp8.inf'', ''LibF.inf'', ''LibC.inf'', ''./LibH.inf'']"
  have all: "Components (second_dscp ''Diamond.dsc'') =
     [(''Comp8.inf'', ''ia32'', no_overrides), (''LibC.inf'', ''ia32'', no_overrides)]"
    by (simp add: second_dscp_def second_components_def)
  have comps: "filter (\<lambda>component. \<not> is_library second_ext component)
      (Components (second_dscp ''Diamond.dsc'')) = [(''Comp8.inf'', ''ia32'', no_overrides)]"
    by (simp add: is_library_def second_defs)
  have inj: "inj_on (as_posix second_ext) (set ?visited)"
    by (simp add: second_ext_sel)
  have dict: "ScopedLibraryDict (second_dscp ''Diamond.dsc'') = second_library_dict"
    by (simp add: second_dscp_def)
  from component_rows [OF second_diamond_table] obtain runs where
    r: "map (expand_component second_ext (example_table_for ''Diamond.dsc'')
              (ScopedLibraryDict (second_dscp ''Diamond.dsc'')))
          (filter (\<lambda>component. \<not> is_library second_ext component)
             (Components (second_dscp ''Diamond.dsc''))) = map Inr runs" and
    c: "(\<forall>(rows, visited) \<in> set runs. inj_on (as_posix second_ext) (set visited)) \<longrightarrow>
        length (filter (\<lambda>entry. COMPONENT entry = None) (map move_entry second_diamond_rows))
          = length (filter (\<lambda>component. \<not> is_library second_ext component)
                     (Components (second_dscp ''Diamond.dsc'')))"
    by blast
  from r have "runs = [(second_diamond_rows, ?visited)]"
    unfolding comps dict by (auto simp: second_diamond_expansion)
  with c inj comps
  have "length (filter (\<lambda>entry. COMPONENT entry = None) (map move_entry second_diamond_rows)) = 1"
    by simp
  with second_diamond_table all comps inj show ?thesis by blast
qed

text \<open>
  The claim as the specification words it asks for one such entry for every declared
  component. A platform description that declares a component and a library as components
  has two declared components and one entry without a component.
\<close>

theorem component_rows_counterexample:
  "length (Components (example_dscp ''Mixed.dsc'')) = 2 \<and>
   build_inf_table example_ext (example_table_for ''Mixed.dsc'') (example_dscp ''Mixed.dsc'')
     = Inr mixed_entries \<and>
   map COMPONENT mixed_entries = [Some ''Comp2.inf'', None]"
  using mixed_table
  by (simp add: example_dscp_def example_components_def mixed_entries_def example_entry_def)

lemma unresolved_component_raises:
  assumes "component \<in> set comps" and "\<not> is_library ext component"
    and "expand_component ext self ld component = Inl e"
  shows "\<exists>e'. component_entries ext self ld comps = Inl e'"
proof (cases "component_entries ext self ld comps")
  case (Inl e')
  then show ?thesis by blast
next
  case (Inr entries)
  from component_entries_runs [OF Inr] obtain runs where
    "map (expand_component ext self ld)
       (filter (\<lambda>component. \<not> is_library ext component) comps) = map Inr runs" by blast
  moreover from assms(1,2)
  have "expand_component ext self ld component
          \<in> set (map (expand_component ext self ld)
                   (filter (\<lambda>component. \<not> is_library ext component) comps))" by simp
  ultimately have "expand_component ext self ld component \<in> set (map Inr runs)" by simp
  with assms(3) show ?thesis by auto
qed

text \<open>
  C2. A library class that none of the five lookups of its scope finds is an error:
  (1) \<^verbatim>\<open>_lib_to_instance\<close> raises \<^verbatim>\<open>RuntimeError\<close> with a message that names the class, the
  scope and the platform description; (2) the expansion of any module that needs the class
  raises such an error, for the first class of the module that does not resolve;
  (3) when a declared component needs the class, \<^verbatim>\<open>parse\<close> raises it and leaves the store
  as it found it, so that the run has no row to commit; (4) every error of
  \<^verbatim>\<open>_build_inf_table\<close> leaves \<^verbatim>\<open>parse\<close> so; (5) there is no silent skip: when
  \<^verbatim>\<open>_build_inf_table\<close> returns, every class needed by every module visited for every
  expanded component has resolved; (6) the error leaves the recursion: the expansion of a
  module raises when any module it comes to, through however many libraries, needs the
  class; (7) and then \<^verbatim>\<open>parse\<close> raises for every platform description that declares such
  a component, and leaves the store as it found it.
\<close>

theorem unresolved_class_is_fatal:
  assumes "CHR ''.'' \<notin> set arch" and "CHR ''.'' \<notin> set module" and "cls \<noteq> ''NULL''"
    and "map_of (classes od) cls = None"
    and "map_of ld (arch @ ''.'' @ module @ ''.'' @ cls) = None"
    and "map_of ld (''common.'' @ module @ ''.'' @ cls) = None"
    and "map_of ld (arch @ ''.'' @ cls) = None"
    and "map_of ld (''common.'' @ cls) = None"
  shows
   "lib_to_instance self cls (arch @ ''.'' @ module) ld od =
      Inl (RuntimeError (''Cannot find library class ['' @ cls @ ''] for scope ['' @
             arch @ ''.'' @ module @ ''] when evaluating '' @ t_dsc self)) \<and>
    (\<forall>ext inf_file component visited infp lib.
       InfP_ParseFile ext inf_file = Inr infp \<and>
       lib \<in> set (get_libraries infp (t_arch self)) \<and>
       lower (case split_str CHR '' '' lib of [] \<Rightarrow> [] | w # _ \<Rightarrow> w) = cls \<longrightarrow>
       (\<exists>lib' \<in> set (get_libraries infp (t_arch self)).
          parse_inf_recursively ext self inf_file component ld od (arch @ ''.'' @ module) visited
            = Inl (RuntimeError (cannot_find self
                (lower (case split_str CHR '' '' lib' of [] \<Rightarrow> [] | w # _ \<Rightarrow> w))
                (arch @ ''.'' @ module))))) \<and>
    (\<forall>ext dscp db pre c scope post entries infp module_type lib.
       DscP_ParseFile ext (t_env self) (t_dsc self) = Inr dscp \<and>
       ScopedLibraryDict dscp = ld \<and>
       Components dscp = pre @ (c, scope, od) # post \<and>
       component_entries ext self ld pre = Inr entries \<and>
       InfP_ParseFile ext c = Inr infp \<and>
       Dict infp ''LIBRARY_CLASS'' = None \<and>
       Dict infp ''MODULE_TYPE'' = Some module_type \<and>
       scope @ lower (''.'' @ module_type) = arch @ ''.'' @ module \<and>
       lib \<in> set (get_libraries infp (t_arch self)) \<and>
       lower (case split_str CHR '' '' lib of [] \<Rightarrow> [] | w # _ \<Rightarrow> w) = cls \<longrightarrow>
       (\<exists>lib' \<in> set (get_libraries infp (t_arch self)).
          InstancedInfTable_parse ext self db =
            (Some (RuntimeError (cannot_find self
                (lower (case split_str CHR '' '' lib' of [] \<Rightarrow> [] | w # _ \<Rightarrow> w))
                (arch @ ''.'' @ module))), db))) \<and>
    (\<forall>ext dscp db e.
       DscP_ParseFile ext (t_env self) (t_dsc self) = Inr dscp \<and>
       build_inf_table ext self dscp = Inl e \<longrightarrow>
       InstancedInfTable_parse ext self db = (Some e, db)) \<and>
    (\<forall>ext dscp inf_entries.
       build_inf_table ext self dscp = Inr inf_entries \<longrightarrow>
       (\<forall>component \<in> set (Components dscp). \<not> is_library ext component \<longrightarrow>
          (\<exists>scope rows visited.
             parse_inf_recursively ext self (fst component) (fst component)
               (ScopedLibraryDict dscp) (snd (snd component)) scope [] = Inr (rows, visited) \<and>
             (\<forall>n \<in> set visited.
                expanded ext self (ScopedLibraryDict dscp) (snd (snd component)) scope rows n)))) \<and>
    (\<forall>ext inf_file component m infp lib.
       (inf_file, m) \<in> (uses ext self ld od (arch @ ''.'' @ module))\<^sup>* \<and>
       InfP_ParseFile ext m = Inr infp \<and>
       lib \<in> set (get_libraries infp (t_arch self)) \<and>
       lower (case split_str CHR '' '' lib of [] \<Rightarrow> [] | w # _ \<Rightarrow> w) = cls \<longrightarrow>
       (\<exists>e. parse_inf_recursively ext self inf_file component ld od (arch @ ''.'' @ module) []
              = Inl e)) \<and>
    (\<forall>ext dscp db component m infp lib.
       DscP_ParseFile ext (t_env self) (t_dsc self) = Inr dscp \<and>
       ScopedLibraryDict dscp = ld \<and>
       component \<in> set (Components dscp) \<and>
       \<not> is_library ext component \<and>
       snd (snd component) = od \<and>
       component_scope ext component = arch @ ''.'' @ module \<and>
       (fst component, m) \<in> (uses ext self ld od (arch @ ''.'' @ module))\<^sup>* \<and>
       InfP_ParseFile ext m = Inr infp \<and>
       lib \<in> set (get_libraries infp (t_arch self)) \<and>
       lower (case split_str CHR '' '' lib of [] \<Rightarrow> [] | w # _ \<Rightarrow> w) = cls \<longrightarrow>
       (\<exists>e. InstancedInfTable_parse ext self db = (Some e, db)))"
proof -
  let ?scope = "arch @ ''.'' @ module"
  let ?cn = "\<lambda>lib. lower (case split_str CHR '' '' lib of [] \<Rightarrow> [] | w # _ \<Rightarrow> w)"
  have unresolved: "lib_to_instance self cls ?scope ld od =
      Inl (RuntimeError (cannot_find self cls ?scope))"
    by (rule lib_to_instance_unresolved [OF assms(1,2,4-)])
  then have first: "lib_to_instance self cls (arch @ ''.'' @ module) ld od =
      Inl (RuntimeError (''Cannot find library class ['' @ cls @ ''] for scope ['' @
             arch @ ''.'' @ module @ ''] when evaluating '' @ t_dsc self))"
    by (simp add: cannot_find_def)
  have node: "\<exists>lib' \<in> set (get_libraries infp (t_arch self)).
          parse_inf_recursively ext self inf_file component ld od ?scope visited
            = Inl (RuntimeError (cannot_find self (?cn lib') ?scope))"
    if "InfP_ParseFile ext inf_file = Inr infp"
      and "lib \<in> set (get_libraries infp (t_arch self))" and "?cn lib = cls"
    for ext inf_file component visited infp lib
  proof -
    from that(3) unresolved
    have "lib_to_instance self (?cn lib) ?scope ld od =
            Inl (RuntimeError (cannot_find self (?cn lib) ?scope))" by simp
    from resolve_libraries_unresolved [OF assms(1,2) that(2) this]
    obtain lib' where "lib' \<in> set (get_libraries infp (t_arch self))" and
      "resolve_libraries self (get_libraries infp (t_arch self)) ?scope ld od =
         Inl (RuntimeError (cannot_find self (?cn lib') ?scope))" by blast
    with parse_inf_recursively_unresolved [OF that(1)] show ?thesis by blast
  qed
  have run: "\<exists>lib' \<in> set (get_libraries infp (t_arch self)).
          InstancedInfTable_parse ext self db =
            (Some (RuntimeError (cannot_find self (?cn lib') ?scope)), db)"
    if "DscP_ParseFile ext (t_env self) (t_dsc self) = Inr dscp"
      and "ScopedLibraryDict dscp = ld"
      and "Components dscp = pre @ (c, scope, od) # post"
      and "component_entries ext self ld pre = Inr entries"
      and "InfP_ParseFile ext c = Inr infp"
      and "Dict infp ''LIBRARY_CLASS'' = None"
      and "Dict infp ''MODULE_TYPE'' = Some module_type"
      and "scope @ lower (''.'' @ module_type) = ?scope"
      and "lib \<in> set (get_libraries infp (t_arch self))" and "?cn lib = cls"
    for ext dscp db pre c scope post entries infp module_type lib
  proof -
    from node [OF that(5,9,10), of c "[]"] obtain lib' where
      lib': "lib' \<in> set (get_libraries infp (t_arch self))" and
      raised: "parse_inf_recursively ext self c c ld od ?scope []
            = Inl (RuntimeError (cannot_find self (?cn lib') ?scope))" by blast
    from raised that(8)
    have "parse_inf_recursively ext self c c ld od (scope @ lower (''.'' @ module_type)) []
            = Inl (RuntimeError (cannot_find self (?cn lib') ?scope))" by simp
    from component_entries_raise [OF that(4,5,6,7) this, of post] that(2,3)
    have "build_inf_table ext self dscp = Inl (RuntimeError (cannot_find self (?cn lib') ?scope))"
      by (simp add: build_inf_table_def)
    from InstancedInfTable_parse_raise [OF that(1) this] lib' show ?thesis by blast
  qed
  have skip: "\<forall>component \<in> set (Components dscp). \<not> is_library ext component \<longrightarrow>
          (\<exists>scope rows visited.
             parse_inf_recursively ext self (fst component) (fst component)
               (ScopedLibraryDict dscp) (snd (snd component)) scope [] = Inr (rows, visited) \<and>
             (\<forall>n \<in> set visited.
                expanded ext self (ScopedLibraryDict dscp) (snd (snd component)) scope rows n))"
    if "build_inf_table ext self dscp = Inr inf_entries" for ext dscp inf_entries
  proof -
    from that obtain entries where
      "component_entries ext self (ScopedLibraryDict dscp) (Components dscp) = Inr entries"
      by (rule build_inf_table_Inr)
    then show ?thesis by (rule component_entries_expanded)
  qed
  have deep: "\<exists>e. parse_inf_recursively ext self inf_file component ld od ?scope [] = Inl e"
    if "(inf_file, m) \<in> (uses ext self ld od ?scope)\<^sup>*"
      and "InfP_ParseFile ext m = Inr infp"
      and "lib \<in> set (get_libraries infp (t_arch self))" and "?cn lib = cls"
    for ext inf_file component m infp lib
  proof -
    from that(4) unresolved
    have "lib_to_instance self (?cn lib) ?scope ld od =
            Inl (RuntimeError (cannot_find self (?cn lib) ?scope))" by simp
    from resolve_libraries_unresolved [OF assms(1,2) that(3) this]
    obtain e where
      "resolve_libraries self (get_libraries infp (t_arch self)) ?scope ld od = Inl e" by blast
    with that(1,2) show ?thesis by (rule unresolved_module_raises)
  qed
  have abort: "\<exists>e. InstancedInfTable_parse ext self db = (Some e, db)"
    if "DscP_ParseFile ext (t_env self) (t_dsc self) = Inr dscp"
      and "ScopedLibraryDict dscp = ld"
      and "component \<in> set (Components dscp)"
      and "\<not> is_library ext component"
      and "snd (snd component) = od"
      and "component_scope ext component = ?scope"
      and "(fst component, m) \<in> (uses ext self ld od ?scope)\<^sup>*"
      and "InfP_ParseFile ext m = Inr infp"
      and "lib \<in> set (get_libraries infp (t_arch self))" and "?cn lib = cls"
    for ext dscp db component m infp lib
  proof -
    from deep [OF that(7-10), of "fst component"] that(5,6)
    obtain e where "expand_component ext self ld component = Inl e"
      by (auto simp: expand_component_def)
    from unresolved_component_raises [OF that(3,4) this] that(2)
    obtain e' where "build_inf_table ext self dscp = Inl e'"
      by (auto simp: build_inf_table_def)
    from InstancedInfTable_parse_raise [OF that(1) this] show ?thesis by blast
  qed
  show ?thesis
  proof (intro conjI allI impI)
    show "lib_to_instance self cls (arch @ ''.'' @ module) ld od =
      Inl (RuntimeError (''Cannot find library class ['' @ cls @ ''] for scope ['' @
             arch @ ''.'' @ module @ ''] when evaluating '' @ t_dsc self))"
      by (rule first)
  next
    fix ext :: collaborators and inf_file component visited infp lib
    assume "InfP_ParseFile ext inf_file = Inr infp \<and>
       lib \<in> set (get_libraries infp (t_arch self)) \<and> ?cn lib = cls"
    then show "\<exists>lib' \<in> set (get_libraries infp (t_arch self)).
          parse_inf_recursively ext self inf_file component ld od ?scope visited
            = Inl (RuntimeError (cannot_find self (?cn lib') ?scope))"
      using node [of ext inf_file infp lib component visited] by simp
  next
    fix ext :: collaborators and dscp db pre c scope post entries infp module_type lib
    assume "DscP_ParseFile ext (t_env self) (t_dsc self) = Inr dscp \<and>
       ScopedLibraryDict dscp = ld \<and>
       Components dscp = pre @ (c, scope, od) # post \<and>
       component_entries ext self ld pre = Inr entries \<and>
       InfP_ParseFile ext c = Inr infp \<and>
       Dict infp ''LIBRARY_CLASS'' = None \<and>
       Dict infp ''MODULE_TYPE'' = Some module_type \<and>
       scope @ lower (''.'' @ module_type) = ?scope \<and>
       lib \<in> set (get_libraries infp (t_arch self)) \<and> ?cn lib = cls"
    then show "\<exists>lib' \<in> set (get_libraries infp (t_arch self)).
          InstancedInfTable_parse ext self db =
            (Some (RuntimeError (cannot_find self (?cn lib') ?scope)), db)"
      using run [of ext dscp pre c scope post entries infp module_type lib db] by simp
  next
    fix ext :: collaborators and dscp db e
    assume "DscP_ParseFile ext (t_env self) (t_dsc self) = Inr dscp \<and>
       build_inf_table ext self dscp = Inl e"
    then show "InstancedInfTable_parse ext self db = (Some e, db)"
      using InstancedInfTable_parse_raise [of ext self dscp e db] by simp
  next
    fix ext :: collaborators and dscp inf_entries
    assume "build_inf_table ext self dscp = Inr inf_entries"
    then show "\<forall>component \<in> set (Components dscp). \<not> is_library ext component \<longrightarrow>
          (\<exists>scope rows visited.
             parse_inf_recursively ext self (fst component) (fst component)
               (ScopedLibraryDict dscp) (snd (snd component)) scope [] = Inr (rows, visited) \<and>
             (\<forall>n \<in> set visited.
                expanded ext self (ScopedLibraryDict dscp) (snd (snd component)) scope rows n))"
      by (rule skip)
  next
    fix ext :: collaborators and inf_file component m infp lib
    assume "(inf_file, m) \<in> (uses ext self ld od ?scope)\<^sup>* \<and>
       InfP_ParseFile ext m = Inr infp \<and>
       lib \<in> set (get_libraries infp (t_arch self)) \<and> ?cn lib = cls"
    then show "\<exists>e. parse_inf_recursively ext self inf_file component ld od ?scope [] = Inl e"
      using deep [of inf_file m ext infp lib component] by simp
  next
    fix ext :: collaborators and dscp db component m infp lib
    assume "DscP_ParseFile ext (t_env self) (t_dsc self) = Inr dscp \<and>
       ScopedLibraryDict dscp = ld \<and>
       component \<in> set (Components dscp) \<and>
       \<not> is_library ext component \<and>
       snd (snd component) = od \<and>
       component_scope ext component = ?scope \<and>
       (fst component, m) \<in> (uses ext self ld od ?scope)\<^sup>* \<and>
       InfP_ParseFile ext m = Inr infp \<and>
       lib \<in> set (get_libraries infp (t_arch self)) \<and> ?cn lib = cls"
    then show "\<exists>e. InstancedInfTable_parse ext self db = (Some e, db)"
      using abort [of ext dscp component m infp lib db] by simp
  qed
qed


lemma nested_uses:
  "(''Comp5.inf'', ''LibD.inf'') \<in>
     (uses second_ext (example_table_for ''Nested.dsc'') second_library_dict no_overrides
        (''ia32'' @ ''.'' @ ''dxe_driver''))\<^sup>*"
proof (rule r_into_rtrancl)
  have "InfP_ParseFile second_ext ''Comp5.inf'' = Inr (module_view ''Comp5'' ''DXE_DRIVER'' [''ClsD''])"
    by (simp add: second_ext_sel second_inf_def)
  moreover have "resolve_libraries (example_table_for ''Nested.dsc'')
      (get_libraries (module_view ''Comp5'' ''DXE_DRIVER'' [''ClsD''])
         (t_arch (example_table_for ''Nested.dsc'')))
      (''ia32'' @ ''.'' @ ''dxe_driver'') second_library_dict no_overrides = Inr [''LibD.inf'']"
    by (simp add: module_view_def lib_to_instance_def string_eval second_library_dict_def
                  no_overrides_def)
  ultimately show "(''Comp5.inf'', ''LibD.inf'') \<in>
     uses second_ext (example_table_for ''Nested.dsc'') second_library_dict no_overrides
        (''ia32'' @ ''.'' @ ''dxe_driver'')"
    unfolding uses_def by (simp add: no_overrides_def)
qed

theorem unresolved_class_is_fatal_witness:
  "lib_to_instance (example_table_for ''Missing.dsc'') ''clsx'' ''x64.peim''
     example_library_dict no_overrides =
     Inl (RuntimeError
       ''Cannot find library class [clsx] for scope [x64.peim] when evaluating Missing.dsc'') \<and>
   InstancedInfTable_parse example_ext (example_table_for ''Missing.dsc'') example_store =
     (Some (RuntimeError
        ''Cannot find library class [clsx] for scope [x64.peim] when evaluating Missing.dsc''),
      example_store) \<and>
   (''Comp5.inf'', ''LibD.inf'') \<in>
     (uses second_ext (example_table_for ''Nested.dsc'') second_library_dict no_overrides
        (''ia32'' @ ''.'' @ ''dxe_driver''))\<^sup>* \<and>
   (\<exists>e. InstancedInfTable_parse second_ext (example_table_for ''Nested.dsc'') example_store =
     (Some e, example_store))"
proof -
  let ?self = "example_table_for ''Missing.dsc''"
  have h: "CHR ''.'' \<notin> set ''x64''" "CHR ''.'' \<notin> set ''peim''" "''clsx'' \<noteq> ''NULL''"
    "map_of (classes no_overrides) ''clsx'' = None"
    "map_of example_library_dict (''x64'' @ ''.'' @ ''peim'' @ ''.'' @ ''clsx'') = None"
    "map_of example_library_dict (''common.'' @ ''peim'' @ ''.'' @ ''clsx'') = None"
    "map_of example_library_dict (''x64'' @ ''.'' @ ''clsx'') = None"
    "map_of example_library_dict (''common.'' @ ''clsx'') = None"
    by (simp_all add: example_library_dict_def no_overrides_def)
  note fatal = unresolved_class_is_fatal [OF h, of ?self]
  from fatal [THEN conjunct1] have first: "lib_to_instance ?self ''clsx'' ''x64.peim''
     example_library_dict no_overrides =
     Inl (RuntimeError
       ''Cannot find library class [clsx] for scope [x64.peim] when evaluating Missing.dsc'')"
    by (simp add: example_table_for_sel)
  have "DscP_ParseFile example_ext (t_env ?self) (t_dsc ?self) = Inr (example_dscp ''Missing.dsc'') \<and>
       ScopedLibraryDict (example_dscp ''Missing.dsc'') = example_library_dict \<and>
       Components (example_dscp ''Missing.dsc'') = [] @ (''Comp3.inf'', ''x64'', no_overrides) # [] \<and>
       component_entries example_ext ?self example_library_dict [] = Inr [] \<and>
       InfP_ParseFile example_ext ''Comp3.inf'' = Inr (module_view ''Comp3'' ''PEIM'' [''ClsX'']) \<and>
       Dict (module_view ''Comp3'' ''PEIM'' [''ClsX'']) ''LIBRARY_CLASS'' = None \<and>
       Dict (module_view ''Comp3'' ''PEIM'' [''ClsX'']) ''MODULE_TYPE'' = Some ''PEIM'' \<and>
       ''x64'' @ lower (''.'' @ ''PEIM'') = ''x64'' @ ''.'' @ ''peim'' \<and>
       ''ClsX'' \<in> set (get_libraries (module_view ''Comp3'' ''PEIM'' [''ClsX'']) (t_arch ?self)) \<and>
       lower (case split_str CHR '' '' ''ClsX'' of [] \<Rightarrow> [] | w # _ \<Rightarrow> w) = ''clsx''"
    by (simp add: example_ext_sel example_table_for_sel example_dscp_def example_components_def
                  example_inf_def module_view_def string_eval)
  with fatal [THEN conjunct2, THEN conjunct2, THEN conjunct1] obtain lib' where
    "lib' \<in> set (get_libraries (module_view ''Comp3'' ''PEIM'' [''ClsX'']) (t_arch ?self))" and
    "InstancedInfTable_parse example_ext ?self example_store =
       (Some (RuntimeError (cannot_find ?self
          (lower (case split_str CHR '' '' lib' of [] \<Rightarrow> [] | w # _ \<Rightarrow> w))
          (''x64'' @ ''.'' @ ''peim''))), example_store)"
    by blast
  then have "InstancedInfTable_parse example_ext ?self example_store =
     (Some (RuntimeError
        ''Cannot find library class [clsx] for scope [x64.peim] when evaluating Missing.dsc''),
      example_store)"
    by (simp add: module_view_def cannot_find_def example_table_for_sel string_eval)
  moreover have "\<exists>e. InstancedInfTable_parse second_ext (example_table_for ''Nested.dsc'')
      example_store = (Some e, example_store)"
  proof -
    let ?self = "example_table_for ''Nested.dsc''"
    have h: "CHR ''.'' \<notin> set ''ia32''" "CHR ''.'' \<notin> set ''dxe_driver''" "''clsx'' \<noteq> ''NULL''"
      "map_of (classes no_overrides) ''clsx'' = None"
      "map_of second_library_dict (''ia32'' @ ''.'' @ ''dxe_driver'' @ ''.'' @ ''clsx'') = None"
      "map_of second_library_dict (''common.'' @ ''dxe_driver'' @ ''.'' @ ''clsx'') = None"
      "map_of second_library_dict (''ia32'' @ ''.'' @ ''clsx'') = None"
      "map_of second_library_dict (''common.'' @ ''clsx'') = None"
      by (simp_all add: second_library_dict_def no_overrides_def)
    note deep = unresolved_class_is_fatal [OF h, of ?self,
        THEN conjunct2, THEN conjunct2, THEN conjunct2, THEN conjunct2, THEN conjunct2,
        THEN conjunct2, rule_format,
        of second_ext "second_dscp ''Nested.dsc''" "(''Comp5.inf'', ''ia32'', no_overrides)"
           "''LibD.inf''" "library_view ''LibD'' ''ClsD'' [''ClsX'']" "''ClsX''" example_store]
    have "DscP_ParseFile second_ext (t_env ?self) (t_dsc ?self) = Inr (second_dscp ''Nested.dsc'') \<and>
         ScopedLibraryDict (second_dscp ''Nested.dsc'') = second_library_dict \<and>
         (''Comp5.inf'', ''ia32'', no_overrides) \<in> set (Components (second_dscp ''Nested.dsc'')) \<and>
         \<not> is_library second_ext (''Comp5.inf'', ''ia32'', no_overrides) \<and>
         snd (snd (''Comp5.inf'', ''ia32'', no_overrides)) = no_overrides \<and>
         component_scope second_ext (''Comp5.inf'', ''ia32'', no_overrides)
           = ''ia32'' @ ''.'' @ ''dxe_driver'' \<and>
         InfP_ParseFile second_ext ''LibD.inf'' = Inr (library_view ''LibD'' ''ClsD'' [''ClsX'']) \<and>
         ''ClsX'' \<in> set (get_libraries (library_view ''LibD'' ''ClsD'' [''ClsX'']) (t_arch ?self)) \<and>
         lower (case split_str CHR '' '' ''ClsX'' of [] \<Rightarrow> [] | w # _ \<Rightarrow> w) = ''clsx''"
      by (simp add: second_ext_sel example_table_for_sel second_dscp_def second_components_def
                    second_inf_def module_view_def library_view_def is_library_def
                    component_scope_def string_eval)
    with nested_uses deep show ?thesis by simp
  qed
  ultimately show ?thesis using first nested_uses by blast
qed

end
